theory Spec2Isabelle
  imports Main
begin

section \<open>Python errors\<close>

text \<open>
  Every \<^verbatim>\<open>raise\<close>, failed \<^verbatim>\<open>assert\<close> and failing built-in of the source is a value
  of this type; a function that can fail returns \<open>py_error + 'a\<close> with \<open>Inl\<close> the error.
  \<open>Exception msg\<close> is \<^verbatim>\<open>raise Exception(msg)\<close>.
\<close>

datatype py_error =
    Exception string
  | KeyError
  | IndexError
  | ValueError
  | TypeError
  | AttributeError
  | AssertionError
  | RecursionError

section \<open>Sealed lists: \<^verbatim>\<open>IList\<close> (immutable_ir.py, lines 14-48)\<close>

text \<open>
  \<^verbatim>\<open>class IList(List[_T])\<close> is a Python list with one more field, \<^verbatim>\<open>_frozen\<close>, which
  starts \<^verbatim>\<open>False\<close>. The class overrides six methods of \<^verbatim>\<open>list\<close>; each checks the flag and
  then calls the inherited method. Every other method of \<^verbatim>\<open>list\<close> is inherited as it is.
\<close>

record 'a IList =
  items :: "'a list"
  frozen :: bool

definition IList_new :: "'a list \<Rightarrow> 'a IList" where
  "IList_new xs = \<lparr>items = xs, frozen = False\<rparr>"

definition IList_freeze :: "'a IList \<Rightarrow> 'a IList" where
  "IList_freeze l = l\<lparr>frozen := True\<rparr>"

definition frozen_error :: py_error where
  "frozen_error = Exception ''frozen list can not be modified''"

definition IList_append :: "'a IList \<Rightarrow> 'a \<Rightarrow> py_error + 'a IList" where
  "IList_append l x =
     (if frozen l then Inl frozen_error
      else Inr (l\<lparr>items := items l @ [x]\<rparr>))"

definition IList_extend :: "'a IList \<Rightarrow> 'a list \<Rightarrow> py_error + 'a IList" where
  "IList_extend l xs =
     (if frozen l then Inl frozen_error
      else Inr (l\<lparr>items := items l @ xs\<rparr>))"

text \<open>\<^verbatim>\<open>list.insert(i, x)\<close> clamps the index: a negative one counts from the end.\<close>

definition list_insert :: "'a list \<Rightarrow> int \<Rightarrow> 'a \<Rightarrow> 'a list" where
  "list_insert xs i x =
     (let n = int (length xs);
          j = (if i < 0 then max 0 (i + n) else min i n)
      in take (nat j) xs @ x # drop (nat j) xs)"

definition IList_insert :: "'a IList \<Rightarrow> int \<Rightarrow> 'a \<Rightarrow> py_error + 'a IList" where
  "IList_insert l i x =
     (if frozen l then Inl frozen_error
      else Inr (l\<lparr>items := list_insert (items l) i x\<rparr>))"

text \<open>\<^verbatim>\<open>list.remove(x)\<close> deletes the first element equal to \<open>x\<close> or raises ValueError.\<close>

definition IList_remove :: "'a IList \<Rightarrow> 'a \<Rightarrow> py_error + 'a IList" where
  "IList_remove l x =
     (if frozen l then Inl frozen_error
      else if x \<in> set (items l) then Inr (l\<lparr>items := remove1 x (items l)\<rparr>)
      else Inl ValueError)"

text \<open>
  \<^verbatim>\<open>def pop(self, __index: SupportsIndex = ...)\<close>: the default of the index is the
  Ellipsis object, which \<^verbatim>\<open>list.pop\<close> rejects with TypeError; \<open>None\<close> below is the
  call without an index.
\<close>

definition IList_pop :: "'a IList \<Rightarrow> int option \<Rightarrow> py_error + ('a \<times> 'a IList)" where
  "IList_pop l idx =
     (if frozen l then Inl frozen_error
      else case idx of
        None \<Rightarrow> Inl TypeError
      | Some i \<Rightarrow>
          (let n = int (length (items l));
               j = (if i < 0 then i + n else i)
           in if 0 \<le> j \<and> j < n
              then Inr (items l ! nat j,
                        l\<lparr>items := take (nat j) (items l) @ drop (Suc (nat j)) (items l)\<rparr>)
              else Inl IndexError))"

definition IList_clear :: "'a IList \<Rightarrow> py_error + 'a IList" where
  "IList_clear l =
     (if frozen l then Inl frozen_error
      else Inr (l\<lparr>items := []\<rparr>))"

text \<open>
  Methods that \<^verbatim>\<open>IList\<close> does not override and so inherits from \<^verbatim>\<open>list\<close> unchanged:
  \<^verbatim>\<open>reverse()\<close> and \<^verbatim>\<open>del l[i]\<close> (\<^verbatim>\<open>__delitem__\<close>). Neither looks at \<^verbatim>\<open>_frozen\<close>.
\<close>

definition IList_reverse :: "'a IList \<Rightarrow> py_error + 'a IList" where
  "IList_reverse l = Inr (l\<lparr>items := rev (items l)\<rparr>)"

definition IList_delitem :: "'a IList \<Rightarrow> int \<Rightarrow> py_error + 'a IList" where
  "IList_delitem l i =
     (let n = int (length (items l));
          j = (if i < 0 then i + n else i)
      in if 0 \<le> j \<and> j < n
         then Inr (l\<lparr>items := take (nat j) (items l) @ drop (Suc (nat j)) (items l)\<rparr>)
         else Inl IndexError)"

section \<open>Constraint matcher (sasha_rewrite_pattern.py)\<close>

text \<open>
  \<^verbatim>\<open>MatchContext.ctx\<close> is a \<^verbatim>\<open>dict[str, Any]\<close>: a map from variable names to bound
  nodes. The nodes (\<^verbatim>\<open>Operation\<close>, \<^verbatim>\<open>Attribute\<close>, \<^verbatim>\<open>SSAValue\<close>, \<^verbatim>\<open>OpResult\<close>) are
  declared in \<^verbatim>\<open>xdsl.ir.core\<close>, which is not among the sources, so they are a type
  parameter \<open>'v\<close> whose equality stands for Python's \<^verbatim>\<open>==\<close> on them, and the two
  built-ins the constraints call on a node are parameters of the matcher:
  \<open>ga\<close> for \<^verbatim>\<open>getattr(obj, name)\<close> (\<open>None\<close> when the attribute is missing, which raises
  AttributeError) and \<open>isi\<close> for \<^verbatim>\<open>isinstance(obj, type)\<close>.
\<close>

type_synonym 'v MatchContext = "string \<rightharpoonup> 'v"

datatype Variable = Variable (name: string)

definition Variable_get :: "Variable \<Rightarrow> 'v MatchContext \<Rightarrow> py_error + 'v" where
  "Variable_get var ctx =
     (case ctx (name var) of None \<Rightarrow> Inl KeyError | Some val \<Rightarrow> Inr val)"

text \<open>
  \<^verbatim>\<open>Variable.set\<close> updates the context in place and returns a bool; the model returns
  the bool together with the context after the call.
\<close>

definition Variable_set :: "Variable \<Rightarrow> 'v MatchContext \<Rightarrow> 'v \<Rightarrow> bool \<times> 'v MatchContext" where
  "Variable_set var ctx val =
     (case ctx (name var) of
        Some bound \<Rightarrow> (val = bound, ctx)
      | None \<Rightarrow> (True, ctx(name var \<mapsto> val)))"

datatype ('v, 't) Constraint =
    EqConstraint Variable Variable
  | TypeConstraint Variable 't
  | AttributeValueConstraint Variable 'v
  | OperationAttributeConstraint Variable string Variable
  | OperationOperandConstraint Variable string Variable
  | OperationResultConstraint Variable string Variable
  | OpResultOpConstraint Variable Variable

text \<open>
  The three constraints that project a named field of a bound operation share one body:
  read the operation variable, \<^verbatim>\<open>getattr\<close> the field, \<^verbatim>\<open>set\<close> the target variable.
\<close>

definition project_field ::
  "('v \<Rightarrow> string \<Rightarrow> 'v option) \<Rightarrow> Variable \<Rightarrow> string \<Rightarrow> Variable \<Rightarrow> 'v MatchContext
     \<Rightarrow> py_error + (bool \<times> 'v MatchContext)" where
  "project_field ga op_var field target ctx =
     (case Variable_get op_var ctx of
        Inl e \<Rightarrow> Inl e
      | Inr a_obj \<Rightarrow>
          (case ga a_obj field of
             None \<Rightarrow> Inl AttributeError
           | Some b_obj \<Rightarrow> Inr (Variable_set target ctx b_obj)))"

fun Constraint_match ::
  "('v \<Rightarrow> string \<Rightarrow> 'v option) \<Rightarrow> ('v \<Rightarrow> 't \<Rightarrow> bool) \<Rightarrow> ('v, 't) Constraint \<Rightarrow> 'v MatchContext
     \<Rightarrow> py_error + (bool \<times> 'v MatchContext)" where
  "Constraint_match ga isi (EqConstraint lhs_var rhs_var) ctx =
     (case Variable_get lhs_var ctx of
        Inl e \<Rightarrow> Inl e
      | Inr val \<Rightarrow> Inr (Variable_set rhs_var ctx val))"
| "Constraint_match ga isi (TypeConstraint var ty) ctx =
     (case Variable_get var ctx of
        Inl e \<Rightarrow> Inl e
      | Inr op \<Rightarrow> Inr (isi op ty, ctx))"
| "Constraint_match ga isi (AttributeValueConstraint attr_var attr) ctx =
     (case Variable_get attr_var ctx of
        Inl e \<Rightarrow> Inl e
      | Inr a \<Rightarrow> Inr (a = attr, ctx))"
| "Constraint_match ga isi (OperationAttributeConstraint op_var attr_name attr_var) ctx =
     project_field ga op_var attr_name attr_var ctx"
| "Constraint_match ga isi (OperationOperandConstraint op_var operand_name operand_var) ctx =
     project_field ga op_var operand_name operand_var ctx"
| "Constraint_match ga isi (OperationResultConstraint op_var res_name res_var) ctx =
     project_field ga op_var res_name res_var ctx"
| "Constraint_match ga isi (OpResultOpConstraint op_var res_var) ctx =
     project_field ga op_var ''op'' res_var ctx"

record ('v, 't) Query =
  variables :: "Variable list"
  constraints :: "('v, 't) Constraint list"

definition Query_root :: "'t \<Rightarrow> ('v, 't) Query" where
  "Query_root root_type =
     \<lparr>variables = [Variable ''root''],
      constraints = [TypeConstraint (Variable ''root'') root_type]\<rparr>"

text \<open>
  The loop of \<^verbatim>\<open>Query.match\<close> over the constraints: \<open>Inr None\<close> is the early
  \<^verbatim>\<open>return None\<close>, \<open>Inr (Some ctx)\<close> the context after every constraint held.
\<close>

fun match_constraints ::
  "('v \<Rightarrow> string \<Rightarrow> 'v option) \<Rightarrow> ('v \<Rightarrow> 't \<Rightarrow> bool) \<Rightarrow> ('v, 't) Constraint list
     \<Rightarrow> 'v MatchContext \<Rightarrow> py_error + 'v MatchContext option" where
  "match_constraints ga isi [] ctx = Inr (Some ctx)"
| "match_constraints ga isi (c # cs) ctx =
     (case Constraint_match ga isi c ctx of
        Inl e \<Rightarrow> Inl e
      | Inr (ok, ctx') \<Rightarrow> if \<not> ok then Inr None else match_constraints ga isi cs ctx')"

text \<open>
  After the loop the match is the dictionary \<^verbatim>\<open>{name: ctx.ctx[name] for name in var_names}\<close>;
  the subscript raises KeyError for a declared variable that no constraint bound, before
  the \<^verbatim>\<open>assert\<close> that follows is reached.
\<close>

definition Query_match ::
  "('v \<Rightarrow> string \<Rightarrow> 'v option) \<Rightarrow> ('v \<Rightarrow> 't \<Rightarrow> bool) \<Rightarrow> ('v, 't) Query \<Rightarrow> 'v
     \<Rightarrow> py_error + 'v MatchContext option" where
  "Query_match ga isi q operation =
     (case match_constraints ga isi (constraints q) [''root'' \<mapsto> operation] of
        Inl e \<Rightarrow> Inl e
      | Inr None \<Rightarrow> Inr None
      | Inr (Some ctx) \<Rightarrow>
          (let var_names = map name (variables q)
           in if list_all (\<lambda>n. ctx n \<noteq> None) var_names
              then Inr (Some (ctx |` set var_names))
              else Inl KeyError))"

text \<open>
  The variable and the value a constraint hands to \<^verbatim>\<open>Variable.set\<close> in a context, when
  it gets that far: what the constraint would bind.
\<close>

fun binding ::
  "('v \<Rightarrow> string \<Rightarrow> 'v option) \<Rightarrow> ('v, 't) Constraint \<Rightarrow> 'v MatchContext \<Rightarrow> (Variable \<times> 'v) option" where
  "binding ga (EqConstraint lhs_var rhs_var) ctx =
     map_option (Pair rhs_var) (ctx (name lhs_var))"
| "binding ga (TypeConstraint var ty) ctx = None"
| "binding ga (AttributeValueConstraint attr_var attr) ctx = None"
| "binding ga (OperationAttributeConstraint op_var field target) ctx =
     map_option (Pair target) (Option.bind (ctx (name op_var)) (\<lambda>a_obj. ga a_obj field))"
| "binding ga (OperationOperandConstraint op_var field target) ctx =
     map_option (Pair target) (Option.bind (ctx (name op_var)) (\<lambda>a_obj. ga a_obj field))"
| "binding ga (OperationResultConstraint op_var field target) ctx =
     map_option (Pair target) (Option.bind (ctx (name op_var)) (\<lambda>a_obj. ga a_obj field))"
| "binding ga (OpResultOpConstraint op_var target) ctx =
     map_option (Pair target) (Option.bind (ctx (name op_var)) (\<lambda>a_obj. ga a_obj ''op''))"


section \<open>Immutable IR: data (immutable_ir.py)\<close>

text \<open>
  \<^verbatim>\<open>Attribute\<close> is declared in \<^verbatim>\<open>xdsl.ir\<close>, outside the sources: it is the type
  parameter \<open>'a\<close>. An operation kind is a Python class (\<^verbatim>\<open>type[Operation]\<close>); the only
  one the code names is \<^verbatim>\<open>RewriteId\<close>, so a kind is either that class or another class,
  told apart by its \<^verbatim>\<open>name\<close> attribute.
\<close>

datatype op_type = RewriteId | OpClass string

fun op_type_name :: "op_type \<Rightarrow> string" where
  "op_type_name RewriteId = ''rewrite.id''"
| "op_type_name (OpClass n) = n"

text \<open>
  Python objects have an identity, and the immutable nodes compare and hash by it. Every
  object of the model carries the identity as a number given to it when it is
  constructed. \<^verbatim>\<open>OpData\<close> is the record of name, kind and attribute dictionary that
  operations share; the dictionary is the list of its items in insertion order.
\<close>

datatype 'a OpData =
  OpData (data_id: nat) (data_name: string) (data_op_type: op_type)
         (data_attributes: "(string \<times> 'a) list")

datatype 'a IBlockArg =
  IBlockArg (arg_id: nat) (arg_typ: 'a) (arg_index: nat)

text \<open>
  The \<^verbatim>\<open>results\<close> of an operation are \<^verbatim>\<open>IResult(type, self, idx)\<close> for its result types
  in order, so an operation stores the result types and \<open>IOp_results\<close> below builds the
  list. Each sealed \<^verbatim>\<open>IList\<close> field is the list of its elements. The field \<^verbatim>\<open>block\<close> of
  an \<^verbatim>\<open>IBlockArg\<close> is the one field that is assigned after construction (by the block that
  takes the argument in); it lives in the store \<open>arg_block\<close> of the state below.
\<close>

datatype 'a ISSAValue =
    IResult (res_typ: 'a) (res_op: "'a IOp") (result_index: nat)
  | IArg "'a IBlockArg"
and 'a IOp =
    IOp (op_id: nat) (op_data: "'a OpData") (operands: "'a ISSAValue list")
        (result_types: "'a list") (successors: "'a IBlock list") (regions: "'a IRegion list")
and 'a IBlock =
    IBlock (block_id: nat) (args: "'a IBlockArg list") (ops: "'a IOp list")
and 'a IRegion =
    IRegion (region_id: nat) (blocks: "'a IBlock list")

fun ISSAValue_typ :: "'a ISSAValue \<Rightarrow> 'a" where
  "ISSAValue_typ (IResult ty producer idx) = ty"
| "ISSAValue_typ (IArg a) = arg_typ a"

record ir_state =
  next_id :: nat
  arg_block :: "nat \<rightharpoonup> nat"

subsection \<open>Equality and hashing\<close>

text \<open>
  \<^verbatim>\<open>__eq__\<close> of \<^verbatim>\<open>IOp\<close>, \<^verbatim>\<open>IBlock\<close>, \<^verbatim>\<open>IRegion\<close> and \<^verbatim>\<open>IBlockArg\<close> is \<^verbatim>\<open>self is __o\<close> and
  \<^verbatim>\<open>__hash__\<close> is \<^verbatim>\<open>hash(id(self))\<close> (\<^verbatim>\<open>id(self)\<close> for a block); \<^verbatim>\<open>IResult.__eq__\<close> compares
  the producing operations with \<^verbatim>\<open>==\<close> and the result indices, and an \<^verbatim>\<open>IResult\<close> is
  never equal to an \<^verbatim>\<open>IBlockArg\<close>. \<^verbatim>\<open>IResult.__hash__\<close> is
  \<^verbatim>\<open>hash(id(self.op)) + hash(self.result_index)\<close>. The hash of a number is the number
  (identities and indices stay below the modulus of Python's integer hash).
\<close>

definition IOp_eq :: "'a IOp \<Rightarrow> 'a IOp \<Rightarrow> bool" where
  "IOp_eq a b = (op_id a = op_id b)"

definition IBlock_eq :: "'a IBlock \<Rightarrow> 'a IBlock \<Rightarrow> bool" where
  "IBlock_eq a b = (block_id a = block_id b)"

definition IRegion_eq :: "'a IRegion \<Rightarrow> 'a IRegion \<Rightarrow> bool" where
  "IRegion_eq a b = (region_id a = region_id b)"

definition IBlockArg_eq :: "'a IBlockArg \<Rightarrow> 'a IBlockArg \<Rightarrow> bool" where
  "IBlockArg_eq a b = (arg_id a = arg_id b)"

fun ISSAValue_eq :: "'a ISSAValue \<Rightarrow> 'a ISSAValue \<Rightarrow> bool" where
  "ISSAValue_eq (IResult ty1 op1 idx1) (IResult ty2 op2 idx2) = (IOp_eq op1 op2 \<and> idx1 = idx2)"
| "ISSAValue_eq (IArg a) (IArg b) = IBlockArg_eq a b"
| "ISSAValue_eq (IResult ty1 op1 idx1) (IArg b) = False"
| "ISSAValue_eq (IArg a) (IResult ty2 op2 idx2) = False"

definition IOp_hash :: "'a IOp \<Rightarrow> nat" where
  "IOp_hash a = op_id a"

definition IBlock_hash :: "'a IBlock \<Rightarrow> nat" where
  "IBlock_hash b = block_id b"

definition IRegion_hash :: "'a IRegion \<Rightarrow> nat" where
  "IRegion_hash r = region_id r"

definition IBlockArg_hash :: "'a IBlockArg \<Rightarrow> nat" where
  "IBlockArg_hash a = arg_id a"

fun ISSAValue_hash :: "'a ISSAValue \<Rightarrow> nat" where
  "ISSAValue_hash (IResult ty producer idx) = op_id producer + idx"
| "ISSAValue_hash (IArg a) = arg_id a"

text \<open>
  A dictionary keyed by immutable values (\<^verbatim>\<open>env\<close>, \<^verbatim>\<open>value_mapping\<close>) finds a key by
  \<^verbatim>\<open>__hash__\<close> and \<^verbatim>\<open>__eq__\<close>, that is by \<open>vkey\<close>: the producer's identity and the index
  for a result, its own identity for a block argument.
\<close>

datatype vkey = KResult nat nat | KArg nat

fun key_of :: "'a ISSAValue \<Rightarrow> vkey" where
  "key_of (IResult ty producer idx) = KResult (op_id producer) idx"
| "key_of (IArg a) = KArg (arg_id a)"

type_synonym 'a Env = "vkey \<rightharpoonup> 'a ISSAValue"

definition env_get :: "'a Env \<Rightarrow> 'a ISSAValue \<Rightarrow> 'a ISSAValue" where
  "env_get env v = (case env (key_of v) of Some w \<Rightarrow> w | None \<Rightarrow> v)"

subsection \<open>Constructors and accessors\<close>

definition IOp_init ::
  "'a OpData \<Rightarrow> 'a ISSAValue list \<Rightarrow> 'a list \<Rightarrow> 'a IBlock list \<Rightarrow> 'a IRegion list \<Rightarrow> ir_state
     \<Rightarrow> 'a IOp \<times> ir_state" where
  "IOp_init od opnds res_types succs regs s =
     (IOp (next_id s) od opnds res_types succs regs, s\<lparr>next_id := Suc (next_id s)\<rparr>)"

definition IOp_get ::
  "string \<Rightarrow> op_type \<Rightarrow> 'a ISSAValue list \<Rightarrow> 'a list \<Rightarrow> (string \<times> 'a) list \<Rightarrow> 'a IBlock list
     \<Rightarrow> 'a IRegion list \<Rightarrow> ir_state \<Rightarrow> 'a IOp \<times> ir_state" where
  "IOp_get nm ty opnds res_types attrs succs regs s =
     IOp_init (OpData (next_id s) nm ty attrs) opnds res_types succs regs
       (s\<lparr>next_id := Suc (next_id s)\<rparr>)"

definition IOp_name :: "'a IOp \<Rightarrow> string" where
  "IOp_name a = data_name (op_data a)"

definition IOp_op_type :: "'a IOp \<Rightarrow> op_type" where
  "IOp_op_type a = data_op_type (op_data a)"

definition IOp_attributes :: "'a IOp \<Rightarrow> (string \<times> 'a) list" where
  "IOp_attributes a = data_attributes (op_data a)"

definition IOp_results :: "'a IOp \<Rightarrow> 'a ISSAValue list" where
  "IOp_results a = map (\<lambda>(idx, ty). IResult ty a idx) (enumerate 0 (result_types a))"

definition IOp_result :: "'a IOp \<Rightarrow> 'a ISSAValue option" where
  "IOp_result a = (case IOp_results a of [] \<Rightarrow> None | r # rest \<Rightarrow> Some r)"

definition IRegion_init :: "'a IBlock list \<Rightarrow> ir_state \<Rightarrow> 'a IRegion \<times> ir_state" where
  "IRegion_init blks s = (IRegion (next_id s) blks, s\<lparr>next_id := Suc (next_id s)\<rparr>)"

definition IRegion_block :: "'a IRegion \<Rightarrow> 'a IBlock option" where
  "IRegion_block r = (case blocks r of [] \<Rightarrow> None | b # rest \<Rightarrow> Some b)"

definition IRegion_ops :: "'a IRegion \<Rightarrow> 'a IOp list" where
  "IRegion_ops r = (case IRegion_block r of Some b \<Rightarrow> ops b | None \<Rightarrow> [])"

text \<open>
  \<^verbatim>\<open>IBlock.__init__\<close> takes either argument types (\<open>Inl\<close>), for which it makes the
  \<^verbatim>\<open>IBlockArg\<close>s, or existing \<^verbatim>\<open>IBlockArg\<close>s (\<open>Inr\<close>), whose \<^verbatim>\<open>block\<close> field it assigns.
  An empty sequence passes the first test (\<^verbatim>\<open>all([])\<close>) and gives a block without
  arguments either way.
\<close>

definition set_block :: "nat \<Rightarrow> 'a IBlockArg list \<Rightarrow> (nat \<rightharpoonup> nat) \<Rightarrow> (nat \<rightharpoonup> nat)" where
  "set_block b as m = fold (\<lambda>a m. m(arg_id a \<mapsto> b)) as m"

definition IBlock_init ::
  "'a list + 'a IBlockArg list \<Rightarrow> 'a IOp list \<Rightarrow> ir_state \<Rightarrow> 'a IBlock \<times> ir_state" where
  "IBlock_init arg_spec os s =
     (let b = next_id s in
      case arg_spec of
        Inl types \<Rightarrow>
          (let block_args = map (\<lambda>(idx, ty). IBlockArg (b + 1 + idx) ty idx) (enumerate 0 types)
           in (IBlock b block_args os,
               s\<lparr>next_id := b + 1 + length types,
                 arg_block := set_block b block_args (arg_block s)\<rparr>))
      | Inr block_args \<Rightarrow>
          (IBlock b block_args os,
           s\<lparr>next_id := b + 1, arg_block := set_block b block_args (arg_block s)\<rparr>))"

definition IBlock_arg_types :: "'a IBlock \<Rightarrow> 'a list" where
  "IBlock_arg_types b = map arg_typ (args b)"

subsection \<open>Traversal\<close>

text \<open>
  \<^verbatim>\<open>walk(fun)\<close> calls \<^verbatim>\<open>fun\<close> on an operation and then walks its regions, their blocks
  and their operations in order; the functions below give the operations in the order
  \<^verbatim>\<open>fun\<close> sees them.
\<close>

fun IOp_walk :: "'a IOp \<Rightarrow> 'a IOp list"
  and IRegion_walk :: "'a IRegion \<Rightarrow> 'a IOp list"
  and IBlock_walk :: "'a IBlock \<Rightarrow> 'a IOp list" where
  "IOp_walk (IOp i od opnds tys succs regs) =
     IOp i od opnds tys succs regs # concat (map IRegion_walk regs)"
| "IRegion_walk (IRegion i blks) = concat (map IBlock_walk blks)"
| "IBlock_walk (IBlock i as os) = concat (map IOp_walk os)"

section \<open>Immutable IR: rewrite combinators\<close>

text \<open>
  An operand of \<^verbatim>\<open>new_op\<close> and \<^verbatim>\<open>from_op\<close> is an \<^verbatim>\<open>ISSAValue\<close>, an \<^verbatim>\<open>IOp\<close> or a list of
  \<^verbatim>\<open>IOp\<close>s.
\<close>

datatype 'a Operand = Value "'a ISSAValue" | Single "'a IOp" | Many "'a IOp list"

text \<open>\<^verbatim>\<open>list.remove(x)\<close> under a guard that \<open>x\<close> is in the list: drop the first element equal to it.\<close>

fun remove_first :: "('b \<Rightarrow> bool) \<Rightarrow> 'b list \<Rightarrow> 'b list" where
  "remove_first P [] = []"
| "remove_first P (x # xs) = (if P x then xs else x # remove_first P xs)"

text \<open>
  The inner loop of \<^verbatim>\<open>_unpack_operands\<close>, \<^verbatim>\<open>for op in reversed(ops)\<close>; the first argument
  is the list already reversed.
\<close>

fun prepend_ops :: "'a IOp list \<Rightarrow> 'a IOp list \<Rightarrow> 'a IOp list" where
  "prepend_ops [] rewritten_ops = rewritten_ops"
| "prepend_ops (x # rest) rewritten_ops =
     prepend_ops rest
       (x # (if list_ex (IOp_eq x) rewritten_ops
             then remove_first (IOp_eq x) rewritten_ops
             else rewritten_ops))"

text \<open>
  One round of the loop of \<^verbatim>\<open>_unpack_operands\<close>: the value appended to
  \<^verbatim>\<open>unpacked_operands\<close> and the new \<^verbatim>\<open>rewritten_ops\<close>. \<^verbatim>\<open>ops[-1]\<close> and
  \<^verbatim>\<open>operand.op.operands[-1]\<close> raise IndexError on an empty list.
\<close>

definition resolve_operand ::
  "'a Operand \<Rightarrow> 'a IOp list \<Rightarrow> py_error + ('a ISSAValue \<times> 'a IOp list)" where
  "resolve_operand operand rewritten_ops =
     (case operand of
        Value v \<Rightarrow> Inr (v, rewritten_ops)
      | Single x \<Rightarrow>
          (case IOp_result x of
             None \<Rightarrow> Inl AssertionError
           | Some r \<Rightarrow> Inr (r, rewritten_ops))
      | Many xs \<Rightarrow>
          (if xs = [] then Inl IndexError
           else case IOp_result (last xs) of
             None \<Rightarrow> Inl AssertionError
           | Some r \<Rightarrow> Inr (r, prepend_ops (rev xs) rewritten_ops)))"

definition forward_rewrite_id :: "'a ISSAValue \<Rightarrow> py_error + 'a ISSAValue" where
  "forward_rewrite_id v =
     (case v of
        IResult ty producer idx \<Rightarrow>
          (if IOp_op_type producer = RewriteId
           then (if operands producer = [] then Inl IndexError
                 else Inr (last (operands producer)))
           else Inr v)
      | IArg a \<Rightarrow> Inr v)"

definition unpack_operand ::
  "'a Env \<Rightarrow> 'a Operand \<Rightarrow> 'a IOp list \<Rightarrow> py_error + ('a ISSAValue \<times> 'a IOp list)" where
  "unpack_operand env operand rewritten_ops =
     (case resolve_operand operand rewritten_ops of
        Inl e \<Rightarrow> Inl e
      | Inr (v, rewritten_ops') \<Rightarrow>
          (case forward_rewrite_id (env_get env v) of
             Inl e \<Rightarrow> Inl e
           | Inr v' \<Rightarrow> Inr (v', rewritten_ops')))"

fun unpack_loop ::
  "'a Env \<Rightarrow> 'a Operand list \<Rightarrow> 'a ISSAValue list \<Rightarrow> 'a IOp list
     \<Rightarrow> py_error + ('a ISSAValue list \<times> 'a IOp list)" where
  "unpack_loop env [] unpacked_operands rewritten_ops = Inr (unpacked_operands, rewritten_ops)"
| "unpack_loop env (operand # rest) unpacked_operands rewritten_ops =
     (case unpack_operand env operand rewritten_ops of
        Inl e \<Rightarrow> Inl e
      | Inr (v, rewritten_ops') \<Rightarrow> unpack_loop env rest (unpacked_operands @ [v]) rewritten_ops')"

definition unpack_operands ::
  "'a Operand list \<Rightarrow> 'a Env option \<Rightarrow> py_error + ('a ISSAValue list \<times> 'a IOp list)" where
  "unpack_operands opnds env =
     unpack_loop (case env of None \<Rightarrow> Map.empty | Some e \<Rightarrow> e) opnds [] []"

text \<open>
  \<^verbatim>\<open>new_op\<close>: every argument but the kind is optional, \<open>None\<close> standing for the empty
  list or dictionary.
\<close>

definition new_op ::
  "op_type \<Rightarrow> 'a Operand list option \<Rightarrow> 'a list option \<Rightarrow> (string \<times> 'a) list option
     \<Rightarrow> 'a IBlock list option \<Rightarrow> 'a IRegion list option \<Rightarrow> ir_state
     \<Rightarrow> py_error + ('a IOp list \<times> ir_state)" where
  "new_op ty opnds res_types attrs succs regs s =
     (case unpack_operands (case opnds of None \<Rightarrow> [] | Some x \<Rightarrow> x) None of
        Inl e \<Rightarrow> Inl e
      | Inr (new_operands, rewritten_ops) \<Rightarrow>
          (let (x, s') = IOp_get (op_type_name ty) ty new_operands
                           (case res_types of None \<Rightarrow> [] | Some x \<Rightarrow> x)
                           (case attrs of None \<Rightarrow> [] | Some x \<Rightarrow> x)
                           (case succs of None \<Rightarrow> [] | Some x \<Rightarrow> x)
                           (case regs of None \<Rightarrow> [] | Some x \<Rightarrow> x) s
           in Inr (rewritten_ops @ [x], s')))"

text \<open>
  The last loop of \<^verbatim>\<open>from_op\<close>: \<^verbatim>\<open>env[old_op.results[idx]] = result\<close> for every result of
  the new operation; \<^verbatim>\<open>old_op.results[idx]\<close> raises IndexError when the old operation has
  fewer results.
\<close>

fun record_results :: "'a ISSAValue list \<Rightarrow> 'a ISSAValue list \<Rightarrow> 'a Env \<Rightarrow> py_error + 'a Env" where
  "record_results old_results [] env = Inr env"
| "record_results [] (r # rs) env = Inl IndexError"
| "record_results (old # olds) (r # rs) env = record_results olds rs (env(key_of old \<mapsto> r))"

text \<open>
  \<^verbatim>\<open>from_op\<close>: an argument left out (\<open>None\<close>) takes the field of \<^verbatim>\<open>old_op\<close>. The
  dictionary \<^verbatim>\<open>env\<close> is updated in place; the model returns it after the call.
\<close>

definition from_op ::
  "'a IOp \<Rightarrow> 'a Operand list option \<Rightarrow> 'a list option \<Rightarrow> (string \<times> 'a) list option
     \<Rightarrow> 'a IBlock list option \<Rightarrow> 'a IRegion list option \<Rightarrow> 'a Env option \<Rightarrow> ir_state
     \<Rightarrow> py_error + ('a IOp list \<times> 'a Env option \<times> ir_state)" where
  "from_op old_op opnds res_types attrs succs regs env s =
     (let opnds' = (case opnds of None \<Rightarrow> map Value (operands old_op) | Some x \<Rightarrow> x);
          res_types' = (case res_types of None \<Rightarrow> map ISSAValue_typ (IOp_results old_op) | Some x \<Rightarrow> x);
          succs' = (case succs of None \<Rightarrow> successors old_op | Some x \<Rightarrow> x);
          regs' = (case regs of None \<Rightarrow> regions old_op | Some x \<Rightarrow> x)
      in case unpack_operands opnds' env of
        Inl e \<Rightarrow> Inl e
      | Inr (new_operands, rewritten_ops) \<Rightarrow>
          (let (x, s') =
                 (case attrs of
                    None \<Rightarrow> IOp_init (op_data old_op) new_operands res_types' succs' regs' s
                  | Some a \<Rightarrow> IOp_get (IOp_name old_op) (IOp_op_type old_op) new_operands
                                res_types' a succs' regs' s)
           in case env of
                None \<Rightarrow> Inr (rewritten_ops @ [x], None, s')
              | Some e \<Rightarrow>
                  (case record_results (IOp_results old_op) (IOp_results x) e of
                     Inl err \<Rightarrow> Inl err
                   | Inr e' \<Rightarrow> Inr (rewritten_ops @ [x], Some e', s'))))"

section \<open>Immutable IR: rebuilding a block (\<^verbatim>\<open>IBlock.from_iblock\<close>)\<close>

text \<open>
  The first loop of \<^verbatim>\<open>from_iblock\<close>: a new \<^verbatim>\<open>IBlockArg\<close> per old argument, with the old
  type, no block yet and the position as index, recorded in \<^verbatim>\<open>env\<close> under the old one.
\<close>

fun mint_args ::
  "'a IBlockArg list \<Rightarrow> nat \<Rightarrow> 'a Env \<Rightarrow> ir_state \<Rightarrow> 'a IBlockArg list \<times> 'a Env \<times> ir_state" where
  "mint_args [] idx env s = ([], env, s)"
| "mint_args (old_arg # rest) idx env s =
     (let new_block_arg = IBlockArg (next_id s) (arg_typ old_arg) idx;
          (news, env', s') = mint_args rest (Suc idx)
                               (env(KArg (arg_id old_arg) \<mapsto> IArg new_block_arg))
                               (s\<lparr>next_id := Suc (next_id s)\<rparr>)
      in (new_block_arg # news, env', s'))"

text \<open>
  \<^verbatim>\<open>subst_necessary\<close>, called by \<^verbatim>\<open>walk\<close> on an operation: does some operand have an entry
  in \<^verbatim>\<open>env\<close>; and the flag \<^verbatim>\<open>block_substitution_required\<close> after \<^verbatim>\<open>block.walk(subst_necessary)\<close>.
\<close>

definition subst_necessary :: "'a Env \<Rightarrow> 'a IOp \<Rightarrow> bool" where
  "subst_necessary env x = list_ex (\<lambda>operand. env (key_of operand) \<noteq> None) (operands x)"

definition block_substitution_required :: "'a Env \<Rightarrow> 'a IBlock \<Rightarrow> bool" where
  "block_substitution_required env b = list_ex (subst_necessary env) (IBlock_walk b)"

text \<open>
  \<^verbatim>\<open>from_iblock\<close> and its local function \<^verbatim>\<open>substitute_if_required\<close> call each other.
  \<open>substitute_ops\<close> is the list comprehension over \<^verbatim>\<open>ops\<close>, \<open>rebuild_regions\<close> the loop
  over \<^verbatim>\<open>op.regions\<close> and \<open>rebuild_blocks\<close> the loop over \<^verbatim>\<open>region.blocks\<close>; the two
  loops return their flag (\<^verbatim>\<open>substitution_required\<close>, \<^verbatim>\<open>region_substitution_required\<close>)
  and their list. \<^verbatim>\<open>env\<close> is the one dictionary all of them update.
\<close>

fun from_iblock ::
    "'a IOp list \<Rightarrow> 'a IBlock \<Rightarrow> 'a Env \<Rightarrow> ir_state \<Rightarrow> py_error + ('a IBlock \<times> 'a Env \<times> ir_state)"
  and substitute_ops ::
    "'a IOp list \<Rightarrow> 'a Env \<Rightarrow> ir_state \<Rightarrow> py_error + ('a IOp list \<times> 'a Env \<times> ir_state)"
  and substitute_if_required ::
    "'a IOp \<Rightarrow> 'a Env \<Rightarrow> ir_state \<Rightarrow> py_error + ('a IOp \<times> 'a Env \<times> ir_state)"
  and rebuild_regions ::
    "'a IRegion list \<Rightarrow> 'a Env \<Rightarrow> ir_state
       \<Rightarrow> py_error + (bool \<times> 'a IRegion list \<times> 'a Env \<times> ir_state)"
  and rebuild_blocks ::
    "'a IBlock list \<Rightarrow> 'a Env \<Rightarrow> ir_state
       \<Rightarrow> py_error + (bool \<times> 'a IBlock list \<times> 'a Env \<times> ir_state)" where
  "from_iblock os old_block env s =
     (case mint_args (args old_block) 0 env s of
        (block_args, env1, s1) \<Rightarrow>
          (case substitute_ops os env1 s1 of
             Inl e \<Rightarrow> Inl e
           | Inr (os', env2, s2) \<Rightarrow>
               (case IBlock_init (Inr block_args) os' s2 of
                  (b, s3) \<Rightarrow> Inr (b, env2, s3))))"
| "substitute_ops [] env s = Inr ([], env, s)"
| "substitute_ops (x # xs) env s =
     (case substitute_if_required x env s of
        Inl e \<Rightarrow> Inl e
      | Inr (x', env1, s1) \<Rightarrow>
          (case substitute_ops xs env1 s1 of
             Inl e \<Rightarrow> Inl e
           | Inr (xs', env2, s2) \<Rightarrow> Inr (x' # xs', env2, s2)))"
| "substitute_if_required (IOp i od opnds tys succs regs) env s =
     (case rebuild_regions regs env s of
        Inl e \<Rightarrow> Inl e
      | Inr (regions_changed, new_regions, env1, s1) \<Rightarrow>
          (if regions_changed \<or> subst_necessary env1 (IOp i od opnds tys succs regs)
           then (case from_op (IOp i od opnds tys succs regs)
                        (Some (map (\<lambda>operand. Value (env_get env1 operand)) opnds))
                        None None None (Some new_regions) (Some env1) s1 of
                   Inl e \<Rightarrow> Inl e
                 | Inr (substituted_op, env2, s2) \<Rightarrow>
                     (if length substituted_op = 1
                      then Inr (last substituted_op,
                                (case env2 of Some e \<Rightarrow> e | None \<Rightarrow> env1), s2)
                      else Inl AssertionError))
           else Inr (IOp i od opnds tys succs regs, env1, s1)))"
| "rebuild_regions [] env s = Inr (False, [], env, s)"
| "rebuild_regions (IRegion i blks # rest) env s =
     (case rebuild_blocks blks env s of
        Inl e \<Rightarrow> Inl e
      | Inr (region_changed, new_blocks, env1, s1) \<Rightarrow>
          (case (if region_changed then IRegion_init new_blocks s1
                 else (IRegion i blks, s1)) of
             (r, s2) \<Rightarrow>
               (case rebuild_regions rest env1 s2 of
                  Inl e \<Rightarrow> Inl e
                | Inr (rest_changed, new_rest, env2, s3) \<Rightarrow>
                    Inr (region_changed \<or> rest_changed, r # new_rest, env2, s3))))"
| "rebuild_blocks [] env s = Inr (False, [], env, s)"
| "rebuild_blocks (IBlock i as os # rest) env s =
     (case (if block_substitution_required env (IBlock i as os)
            then (case from_iblock os (IBlock i as os) env s of
                    Inl e \<Rightarrow> Inl e
                  | Inr (new_block, env1, s1) \<Rightarrow> Inr (True, new_block, env1, s1))
            else Inr (False, IBlock i as os, env, s)) of
        Inl e \<Rightarrow> Inl e
      | Inr (block_changed, b, env1, s1) \<Rightarrow>
          (case rebuild_blocks rest env1 s1 of
             Inl e \<Rightarrow> Inl e
           | Inr (rest_changed, new_rest, env2, s2) \<Rightarrow>
               Inr (block_changed \<or> rest_changed, b # new_rest, env2, s2)))"

text \<open>
  Vocabulary for the properties of the list that \<^verbatim>\<open>new_op\<close> and \<^verbatim>\<open>from_op\<close> return.
  \<open>references x y\<close>: an operand of \<open>x\<close> is a result of \<open>y\<close>. \<open>no_forward_reference\<close>:
  no operation of the list references a result of an operation that stands after it.
  \<open>listed_ops\<close>: the operations of the operands that are lists. \<open>self_contained\<close>: before
  each of its operations, the list holds every operation of \<open>universe\<close> that it references.
  \<open>needs_substitution\<close>: an operation, or one nested in its regions, has an operand with
  an entry in \<^verbatim>\<open>env\<close>.
\<close>

definition references :: "'a IOp \<Rightarrow> 'a IOp \<Rightarrow> bool" where
  "references x y =
     list_ex (\<lambda>v. case v of IResult ty producer idx \<Rightarrow> IOp_eq producer y | IArg a \<Rightarrow> False)
       (operands x)"

fun no_forward_reference :: "'a IOp list \<Rightarrow> bool" where
  "no_forward_reference [] = True"
| "no_forward_reference (x # xs) = (list_all (\<lambda>y. \<not> references x y) xs \<and> no_forward_reference xs)"

fun listed_ops :: "'a Operand list \<Rightarrow> 'a IOp list" where
  "listed_ops [] = []"
| "listed_ops (Many xs # rest) = xs @ listed_ops rest"
| "listed_ops (Value v # rest) = listed_ops rest"
| "listed_ops (Single x # rest) = listed_ops rest"

definition self_contained :: "'a IOp list \<Rightarrow> 'a IOp list \<Rightarrow> bool" where
  "self_contained universe xs =
     (\<forall>i < length xs. \<forall>y \<in> set universe. references (xs ! i) y \<longrightarrow> y \<in> set (take i xs))"

text \<open>
  \<open>first_occurrences\<close>: a list without its repetitions, every element at its first
  place. \<open>operand_value\<close>: the value an operand stands for before \<^verbatim>\<open>env\<close> and \<^verbatim>\<open>RewriteId\<close>
  are looked at: the value itself, the first result of a bare operation, the first result of
  the last operation of a list.
\<close>

definition first_occurrences :: "'b list \<Rightarrow> 'b list" where
  "first_occurrences xs = rev (remdups (rev xs))"

fun operand_value :: "'a Operand \<Rightarrow> 'a ISSAValue option" where
  "operand_value (Value v) = Some v"
| "operand_value (Single x) = IOp_result x"
| "operand_value (Many xs) = (if xs = [] then None else IOp_result (last xs))"

definition needs_substitution :: "'a Env \<Rightarrow> 'a IOp \<Rightarrow> bool" where
  "needs_substitution env x = list_ex (subst_necessary env) (IOp_walk x)"

text \<open>
  \<open>constructed_before n x\<close>: the operation \<open>x\<close> and the producers of its operands were
  constructed when the next identity to hand out was \<open>n\<close>.
\<close>

definition constructed_before :: "nat \<Rightarrow> 'a IOp \<Rightarrow> bool" where
  "constructed_before n x =
     (op_id x < n
      \<and> list_all (\<lambda>v. case v of IResult ty producer idx \<Rightarrow> op_id producer < n | IArg a \<Rightarrow> True)
           (operands x))"

text \<open>Two operations for the examples: a constant, and an operation that uses its result.\<close>

definition example_constant :: "string IOp" where
  "example_constant =
     IOp 1 (OpData 0 ''arith.constant'' (OpClass ''arith.constant'') [(''value'', ''1'')])
       [] [''i32''] [] []"

definition example_negate :: "string IOp" where
  "example_negate =
     IOp 3 (OpData 2 ''arith.negi'' (OpClass ''arith.negi'') [])
       [IResult ''i32'' example_constant 0] [''i32''] [] []"

section \<open>Rebuilding a block: vocabulary of its properties\<close>


















section \<open>Mutable IR (\<^verbatim>\<open>xdsl.ir\<close>)\<close>

text \<open>
  Modelled from the spec: the mutable classes \<^verbatim>\<open>Operation\<close>, \<^verbatim>\<open>Block\<close>, \<^verbatim>\<open>Region\<close>,
  \<^verbatim>\<open>OpResult\<close> and \<^verbatim>\<open>BlockArgument\<close> and the constructors \<^verbatim>\<open>Operation.create\<close>,
  \<^verbatim>\<open>Block.from_arg_types\<close>, \<^verbatim>\<open>Block.add_op\<close> and \<^verbatim>\<open>Region.from_block_list\<close> are imported
  from \<^verbatim>\<open>xdsl.ir\<close>, which is not among the sources. Following section 3 of the spec, an
  operation has a name, a kind, operand values, results (one per result type, indexed from
  zero), successor blocks (referenced, not owned), attributes and owned regions; a block
  owns its arguments (one per argument type, stamped with the block and the index) and its
  operations; a region owns its blocks. Mutable values, operations and blocks compare by
  identity: a value is identified by its owner and index, an operation and a block by the
  number they carry. A successor is the number of the block it refers to.
\<close>

datatype 'a SSAValue =
    OpResult (m_typ: 'a) (m_owner: "nat option") (m_index: nat)
  | BlockArgument (m_typ: 'a) (m_owner: "nat option") (m_index: nat)

datatype 'a Operation =
    Operation (operation_id: nat) (operation_name: string) (operation_type: op_type)
              (m_operands: "'a SSAValue list") (m_result_types: "'a list")
              (m_attributes: "(string \<times> 'a) list") (m_successors: "nat list")
              (m_regions: "'a Region list")
and 'a Block =
    Block (m_block_id: nat) (m_arg_types: "'a list") (m_ops: "'a Operation list")
and 'a Region =
    Region (m_blocks: "'a Block list")

definition Operation_results :: "'a Operation \<Rightarrow> 'a SSAValue list" where
  "Operation_results x =
     map (\<lambda>(idx, ty). OpResult ty (Some (operation_id x)) idx) (enumerate 0 (m_result_types x))"

definition Block_args :: "'a Block \<Rightarrow> 'a SSAValue list" where
  "Block_args b =
     map (\<lambda>(idx, ty). BlockArgument ty (Some (m_block_id b)) idx) (enumerate 0 (m_arg_types b))"

text \<open>
  \<^verbatim>\<open>operand.op\<close> and a successor are references to objects; the model looks the numbers up
  in the objects of the module at hand.
\<close>

record 'a heap =
  op_at :: "nat \<rightharpoonup> 'a Operation"
  block_at :: "nat \<rightharpoonup> 'a Block"

fun Operation_walk :: "'a Operation \<Rightarrow> 'a Operation list"
  and Region_walk :: "'a Region \<Rightarrow> 'a Operation list"
  and Block_walk :: "'a Block \<Rightarrow> 'a Operation list" where
  "Operation_walk (Operation i nm ty opnds tys attrs succs regs) =
     Operation i nm ty opnds tys attrs succs regs # concat (map Region_walk regs)"
| "Region_walk (Region blks) = concat (map Block_walk blks)"
| "Block_walk (Block i tys os) = concat (map Operation_walk os)"

definition blocks_of :: "'a Operation \<Rightarrow> 'a Block list" where
  "blocks_of x = concat (map (\<lambda>y. concat (map m_blocks (m_regions y))) (Operation_walk x))"

definition heap_of :: "'a Operation \<Rightarrow> 'a heap" where
  "heap_of x =
     \<lparr>op_at = map_of (map (\<lambda>y. (operation_id y, y)) (Operation_walk x)),
      block_at = map_of (map (\<lambda>b. (m_block_id b, b)) (blocks_of x))\<rparr>"

record m_state =
  m_next :: nat
  stdout :: "string list"

definition Operation_create ::
  "op_type \<Rightarrow> 'a SSAValue list \<Rightarrow> 'a list \<Rightarrow> (string \<times> 'a) list \<Rightarrow> nat list \<Rightarrow> 'a Region list
     \<Rightarrow> m_state \<Rightarrow> 'a Operation \<times> m_state" where
  "Operation_create ty opnds res_types attrs succs regs st =
     (Operation (m_next st) (op_type_name ty) ty opnds res_types attrs succs regs,
      st\<lparr>m_next := Suc (m_next st)\<rparr>)"

definition Block_from_arg_types :: "'a list \<Rightarrow> m_state \<Rightarrow> 'a Block \<times> m_state" where
  "Block_from_arg_types tys st = (Block (m_next st) tys [], st\<lparr>m_next := Suc (m_next st)\<rparr>)"

definition Block_add_op :: "'a Block \<Rightarrow> 'a Operation \<Rightarrow> 'a Block" where
  "Block_add_op b x = Block (m_block_id b) (m_arg_types b) (m_ops b @ [x])"

definition Region_from_block_list :: "'a Block list \<Rightarrow> 'a Region" where
  "Region_from_block_list blks = Region blks"

section \<open>Conversion to the mutable IR (\<^verbatim>\<open>get_mutable_copy\<close>)\<close>

text \<open>
  \<^verbatim>\<open>value_mapping\<close> is a \<^verbatim>\<open>dict[ISSAValue, SSAValue]\<close> and \<^verbatim>\<open>block_mapping\<close> a
  \<^verbatim>\<open>dict[IBlock, Block]\<close>; the second maps an immutable block to the number of the mutable
  block made for it. Both are updated in place and returned here with the result.
\<close>

type_synonym 'a value_mapping = "vkey \<rightharpoonup> 'a SSAValue"
type_synonym block_mapping = "nat \<rightharpoonup> nat"

text \<open>
  The first loop of \<^verbatim>\<open>IOp.get_mutable_copy\<close>: an operand without an entry in
  \<^verbatim>\<open>value_mapping\<close> prints a line and is replaced by \<^verbatim>\<open>OpResult(operand.typ, None, 0)\<close>.
\<close>

fun mutable_operands ::
  "string \<Rightarrow> 'a value_mapping \<Rightarrow> 'a ISSAValue list \<Rightarrow> m_state \<Rightarrow> 'a SSAValue list \<times> m_state" where
  "mutable_operands nm vm [] st = ([], st)"
| "mutable_operands nm vm (operand # rest) st =
     (case vm (key_of operand) of
        Some v \<Rightarrow>
          (case mutable_operands nm vm rest st of (vs, st') \<Rightarrow> (v # vs, st'))
      | None \<Rightarrow>
          (case mutable_operands nm vm rest
                  (st\<lparr>stdout := stdout st @ [''ERROR: op '' @ nm @ '' uses SSAValue before definition'']\<rparr>) of
             (vs, st') \<Rightarrow> (OpResult (ISSAValue_typ operand) None 0 # vs, st')))"

text \<open>The second loop: a successor without an entry in \<^verbatim>\<open>block_mapping\<close> raises.\<close>

fun mutable_successors :: "block_mapping \<Rightarrow> 'a IBlock list \<Rightarrow> py_error + nat list" where
  "mutable_successors bm [] = Inr []"
| "mutable_successors bm (successor # rest) =
     (case bm (block_id successor) of
        Some b \<Rightarrow>
          (case mutable_successors bm rest of Inl e \<Rightarrow> Inl e | Inr bs \<Rightarrow> Inr (b # bs))
      | None \<Rightarrow> Inl (Exception ''Block used before definition''))"

text \<open>The last loop: \<^verbatim>\<open>value_mapping[result] = new_op.results[idx]\<close>.\<close>

definition map_results ::
  "'a ISSAValue list \<Rightarrow> 'a SSAValue list \<Rightarrow> 'a value_mapping \<Rightarrow> 'a value_mapping" where
  "map_results results m_results vm =
     fold (\<lambda>(r, m) vm. vm(key_of r \<mapsto> m)) (zip results m_results) vm"

function IOp_get_mutable_copy ::
    "'a IOp \<Rightarrow> 'a value_mapping \<Rightarrow> block_mapping \<Rightarrow> m_state
       \<Rightarrow> py_error + ('a Operation \<times> 'a value_mapping \<times> block_mapping \<times> m_state)"
  and mutable_regions ::
    "'a IRegion list \<Rightarrow> 'a value_mapping \<Rightarrow> block_mapping \<Rightarrow> m_state
       \<Rightarrow> py_error + ('a Region list \<times> 'a value_mapping \<times> block_mapping \<times> m_state)"
  and IRegion_get_mutable_copy ::
    "'a IRegion \<Rightarrow> 'a value_mapping \<Rightarrow> block_mapping \<Rightarrow> m_state
       \<Rightarrow> py_error + ('a Region \<times> 'a value_mapping \<times> block_mapping \<times> m_state)"
  and mutable_blocks ::
    "'a IBlock list \<Rightarrow> 'a value_mapping \<Rightarrow> block_mapping \<Rightarrow> m_state
       \<Rightarrow> py_error + ('a Block list \<times> 'a value_mapping \<times> block_mapping \<times> m_state)"
  and IBlock_get_mutable_copy ::
    "'a IBlock \<Rightarrow> 'a value_mapping \<Rightarrow> block_mapping \<Rightarrow> m_state
       \<Rightarrow> py_error + ('a Block \<times> 'a value_mapping \<times> block_mapping \<times> m_state)"
  and add_mutable_ops ::
    "'a Block \<Rightarrow> 'a IOp list \<Rightarrow> 'a value_mapping \<Rightarrow> block_mapping \<Rightarrow> m_state
       \<Rightarrow> py_error + ('a Block \<times> 'a value_mapping \<times> block_mapping \<times> m_state)" where
  "IOp_get_mutable_copy (IOp i od opnds tys succs regs) vm bm st =
     (case mutable_operands (data_name od) vm opnds st of
        (new_operands, st1) \<Rightarrow>
          (case mutable_successors bm succs of
             Inl e \<Rightarrow> Inl e
           | Inr new_successors \<Rightarrow>
               (case mutable_regions regs vm bm st1 of
                  Inl e \<Rightarrow> Inl e
                | Inr (new_regions, vm1, bm1, st2) \<Rightarrow>
                    (case Operation_create (data_op_type od) new_operands tys
                            (data_attributes od) new_successors new_regions st2 of
                       (created, st3) \<Rightarrow>
                         Inr (created,
                              map_results (IOp_results (IOp i od opnds tys succs regs))
                                (Operation_results created) vm1,
                              bm1, st3)))))"
| "mutable_regions [] vm bm st = Inr ([], vm, bm, st)"
| "mutable_regions (r # rest) vm bm st =
     (case IRegion_get_mutable_copy r vm bm st of
        Inl e \<Rightarrow> Inl e
      | Inr (r', vm1, bm1, st1) \<Rightarrow>
          (case mutable_regions rest vm1 bm1 st1 of
             Inl e \<Rightarrow> Inl e
           | Inr (rs', vm2, bm2, st2) \<Rightarrow> Inr (r' # rs', vm2, bm2, st2)))"
| "IRegion_get_mutable_copy (IRegion i blks) vm bm st =
     (case mutable_blocks blks vm bm st of
        Inl e \<Rightarrow> Inl e
      | Inr (new_blocks, vm1, bm1, st1) \<Rightarrow>
          Inr (Region_from_block_list new_blocks, vm1, bm1, st1))"
| "mutable_blocks [] vm bm st = Inr ([], vm, bm, st)"
| "mutable_blocks (b # rest) vm bm st =
     (case IBlock_get_mutable_copy b vm bm st of
        Inl e \<Rightarrow> Inl e
      | Inr (b', vm1, bm1, st1) \<Rightarrow>
          (case mutable_blocks rest vm1 bm1 st1 of
             Inl e \<Rightarrow> Inl e
           | Inr (bs', vm2, bm2, st2) \<Rightarrow> Inr (b' # bs', vm2, bm2, st2)))"
| "IBlock_get_mutable_copy (IBlock i as os) vm bm st =
     (case Block_from_arg_types (map arg_typ as) st of
        (new_block, st1) \<Rightarrow>
          add_mutable_ops new_block os
            (fold (\<lambda>(a, m) vm. vm(KArg (arg_id a) \<mapsto> m)) (zip as (Block_args new_block)) vm)
            (bm(i \<mapsto> m_block_id new_block)) st1)"
| "add_mutable_ops new_block [] vm bm st = Inr (new_block, vm, bm, st)"
| "add_mutable_ops new_block (immutable_op # rest) vm bm st =
     (case IOp_get_mutable_copy immutable_op vm bm st of
        Inl e \<Rightarrow> Inl e
      | Inr (x, vm1, bm1, st1) \<Rightarrow> add_mutable_ops (Block_add_op new_block x) rest vm1 bm1 st1)"
  by pat_completeness auto
termination
  by (relation "measure (\<lambda>x. case x of
         Inl (Inl (x, rest)) \<Rightarrow> size x
       | Inl (Inr (Inl (rs, rest))) \<Rightarrow> size_list size rs
       | Inl (Inr (Inr (r, rest))) \<Rightarrow> size r
       | Inr (Inl (bs, rest)) \<Rightarrow> size_list size bs
       | Inr (Inr (Inl (b, rest))) \<Rightarrow> size b
       | Inr (Inr (Inr (nb, os, rest))) \<Rightarrow> size_list size os)")
     auto

text \<open>
  What \<^verbatim>\<open>IOp.get_mutable_copy\<close> puts in place of an operand, and the lines it prints for
  the operands that have no entry in \<^verbatim>\<open>value_mapping\<close>.
\<close>

definition placeholder_for :: "'a value_mapping \<Rightarrow> 'a ISSAValue \<Rightarrow> 'a SSAValue" where
  "placeholder_for vm v =
     (case vm (key_of v) of Some m \<Rightarrow> m | None \<Rightarrow> OpResult (ISSAValue_typ v) None 0)"

definition printed_errors :: "string \<Rightarrow> 'a value_mapping \<Rightarrow> 'a ISSAValue list \<Rightarrow> string list" where
  "printed_errors nm vm opnds =
     map (\<lambda>v. ''ERROR: op '' @ nm @ '' uses SSAValue before definition'')
         (filter (\<lambda>v. vm (key_of v) = None) opnds)"

section \<open>Conversion from the mutable IR (\<^verbatim>\<open>from_mutable\<close>)\<close>

text \<open>
  \<^verbatim>\<open>value_map\<close> is a \<^verbatim>\<open>dict[SSAValue, ISSAValue]\<close> and \<^verbatim>\<open>block_map\<close> a
  \<^verbatim>\<open>dict[Block, IBlock]\<close>, keyed by mutable objects, that is by identity.
\<close>

type_synonym 'a value_map = "'a SSAValue \<rightharpoonup> 'a ISSAValue"
type_synonym 'a block_map = "nat \<rightharpoonup> 'a IBlock"

text \<open>A dictionary argument left out (\<^verbatim>\<open>None\<close>) is replaced by a new empty dictionary.\<close>

definition new_value_map :: "'a value_map" where
  "new_value_map = Map.empty"

definition new_block_map :: "'a block_map" where
  "new_block_map = Map.empty"

text \<open>The first loop of \<^verbatim>\<open>IBlock.from_mutable\<close>, over \<^verbatim>\<open>block.args\<close>.\<close>

fun immutable_args ::
  "'a SSAValue list \<Rightarrow> 'a value_map \<Rightarrow> ir_state \<Rightarrow> 'a IBlockArg list \<times> 'a value_map \<times> ir_state" where
  "immutable_args [] vm s = ([], vm, s)"
| "immutable_args (arg # rest) vm s =
     (let immutable_arg = IBlockArg (next_id s) (m_typ arg) (m_index arg)
      in case immutable_args rest (vm(arg \<mapsto> IArg immutable_arg)) (s\<lparr>next_id := Suc (next_id s)\<rparr>) of
           (as, vm', s') \<Rightarrow> (immutable_arg # as, vm', s'))"

text \<open>The last loop of \<^verbatim>\<open>IOp.from_mutable\<close>: \<^verbatim>\<open>value_map[result] = immutable_op.results[idx]\<close>.\<close>

definition record_immutable_results ::
  "'a SSAValue list \<Rightarrow> 'a ISSAValue list \<Rightarrow> 'a value_map \<Rightarrow> 'a value_map" where
  "record_immutable_results results i_results vm =
     fold (\<lambda>(r, i) vm. vm(r \<mapsto> i)) (zip results i_results) vm"

text \<open>
  The three \<^verbatim>\<open>from_mutable\<close> class methods call each other, and convert an operand's
  defining operation or a successor block on demand with fresh dictionaries, so the
  recursion follows references and need not end: the first argument is the number of
  nested calls Python still allows, and RecursionError is raised when it is used up.
  \<open>immutable_operands\<close>, \<open>immutable_successors\<close> and \<open>immutable_regions\<close> are the three
  loops of \<^verbatim>\<open>IOp.from_mutable\<close> (\<open>immutable_operand\<close> and \<open>immutable_successor\<close> the bodies
  of the first two), \<open>immutable_blocks\<close> the comprehension of
  \<^verbatim>\<open>IRegion.from_mutable\<close> and \<open>immutable_ops\<close> that of \<^verbatim>\<open>IBlock.from_mutable\<close>. An owner or
  a successor that the heap does not hold is an object outside the module at hand; the
  model stops there with AssertionError, as \<^verbatim>\<open>from_mutable\<close> does for a value without owner.
\<close>

function IOp_from_mutable ::
    "nat \<Rightarrow> 'a heap \<Rightarrow> 'a Operation \<Rightarrow> 'a value_map \<Rightarrow> 'a block_map \<Rightarrow> 'a ISSAValue list option
       \<Rightarrow> ir_state \<Rightarrow> py_error + ('a IOp \<times> 'a value_map \<times> 'a block_map \<times> ir_state)"
  and immutable_operands ::
    "nat \<Rightarrow> 'a heap \<Rightarrow> string \<Rightarrow> 'a SSAValue list \<Rightarrow> 'a value_map \<Rightarrow> ir_state
       \<Rightarrow> py_error + ('a ISSAValue list \<times> ir_state)"
  and immutable_operand ::
    "nat \<Rightarrow> 'a heap \<Rightarrow> string \<Rightarrow> 'a SSAValue \<Rightarrow> 'a value_map \<Rightarrow> ir_state
       \<Rightarrow> py_error + ('a ISSAValue \<times> ir_state)"
  and immutable_successors ::
    "nat \<Rightarrow> 'a heap \<Rightarrow> nat list \<Rightarrow> 'a block_map \<Rightarrow> ir_state
       \<Rightarrow> py_error + ('a IBlock list \<times> 'a block_map \<times> ir_state)"
  and immutable_successor ::
    "nat \<Rightarrow> 'a heap \<Rightarrow> nat \<Rightarrow> 'a block_map \<Rightarrow> ir_state
       \<Rightarrow> py_error + ('a IBlock \<times> 'a block_map \<times> ir_state)"
  and immutable_regions ::
    "nat \<Rightarrow> 'a heap \<Rightarrow> 'a Region list \<Rightarrow> 'a value_map \<Rightarrow> 'a block_map \<Rightarrow> ir_state
       \<Rightarrow> py_error + ('a IRegion list \<times> 'a value_map \<times> 'a block_map \<times> ir_state)"
  and IRegion_from_mutable ::
    "nat \<Rightarrow> 'a heap \<Rightarrow> 'a Block list \<Rightarrow> 'a value_map \<Rightarrow> 'a block_map \<Rightarrow> ir_state
       \<Rightarrow> py_error + ('a IRegion \<times> 'a value_map \<times> 'a block_map \<times> ir_state)"
  and immutable_blocks ::
    "nat \<Rightarrow> 'a heap \<Rightarrow> 'a Block list \<Rightarrow> 'a value_map \<Rightarrow> 'a block_map \<Rightarrow> ir_state
       \<Rightarrow> py_error + ('a IBlock list \<times> 'a value_map \<times> 'a block_map \<times> ir_state)"
  and IBlock_from_mutable ::
    "nat \<Rightarrow> 'a heap \<Rightarrow> 'a Block \<Rightarrow> 'a value_map \<Rightarrow> 'a block_map \<Rightarrow> ir_state
       \<Rightarrow> py_error + ('a IBlock \<times> 'a value_map \<times> 'a block_map \<times> ir_state)"
  and immutable_ops ::
    "nat \<Rightarrow> 'a heap \<Rightarrow> 'a Operation list \<Rightarrow> 'a value_map \<Rightarrow> 'a block_map \<Rightarrow> ir_state
       \<Rightarrow> py_error + ('a IOp list \<times> 'a value_map \<times> 'a block_map \<times> ir_state)" where
  "IOp_from_mutable 0 h x vm bm existing_operands s = Inl RecursionError"
| "IOp_from_mutable (Suc d) h x vm bm existing_operands s =
     (case (case existing_operands of
              None \<Rightarrow> immutable_operands d h (operation_name x) (m_operands x) vm s
            | Some given \<Rightarrow> Inr (given, s)) of
        Inl e \<Rightarrow> Inl e
      | Inr (opnds, s1) \<Rightarrow>
          (case immutable_successors d h (m_successors x) bm s1 of
             Inl e \<Rightarrow> Inl e
           | Inr (succs, bm1, s2) \<Rightarrow>
               (case immutable_regions d h (m_regions x) vm bm1 s2 of
                  Inl e \<Rightarrow> Inl e
                | Inr (regs, vm1, bm2, s3) \<Rightarrow>
                    (case IOp_get (operation_name x) (operation_type x) opnds (m_result_types x)
                            (m_attributes x) succs regs s3 of
                       (immutable_op, s4) \<Rightarrow>
                         Inr (immutable_op,
                              record_immutable_results (Operation_results x)
                                (IOp_results immutable_op) vm1,
                              bm2, s4)))))"
| "immutable_operands d h nm [] vm s = Inr ([], s)"
| "immutable_operands d h nm (operand # rest) vm s =
     (case immutable_operand d h nm operand vm s of
        Inl e \<Rightarrow> Inl e
      | Inr (v, s1) \<Rightarrow>
          (case immutable_operands d h nm rest vm s1 of
             Inl e \<Rightarrow> Inl e
           | Inr (vs, s2) \<Rightarrow> Inr (v # vs, s2)))"
| "immutable_operand d h nm (OpResult ty owner idx) vm s =
     (case vm (OpResult ty owner idx) of
        Some v \<Rightarrow>
          (case v of
             IResult ty' producer idx' \<Rightarrow> Inr (IResult ty producer idx, s)
           | IArg a \<Rightarrow> Inl AttributeError)
      | None \<Rightarrow>
          (case owner of
             None \<Rightarrow> Inl AssertionError
           | Some owner_id \<Rightarrow>
               (case op_at h owner_id of
                  None \<Rightarrow> Inl AssertionError
                | Some defining_op \<Rightarrow>
                    (case IOp_from_mutable d h defining_op new_value_map new_block_map None s of
                       Inl e \<Rightarrow> Inl e
                     | Inr (producer, vm', bm', s') \<Rightarrow> Inr (IResult ty producer idx, s')))))"
| "immutable_operand d h nm (BlockArgument ty owner idx) vm s =
     (case vm (BlockArgument ty owner idx) of
        None \<Rightarrow> Inl (Exception (''Block argument expected in mapping for op: '' @ nm))
      | Some v \<Rightarrow> Inr (v, s))"
| "immutable_successors d h [] bm s = Inr ([], bm, s)"
| "immutable_successors d h (successor # rest) bm s =
     (case immutable_successor d h successor bm s of
        Inl e \<Rightarrow> Inl e
      | Inr (b, bm1, s1) \<Rightarrow>
          (case immutable_successors d h rest bm1 s1 of
             Inl e \<Rightarrow> Inl e
           | Inr (bs, bm2, s2) \<Rightarrow> Inr (b # bs, bm2, s2)))"
| "immutable_successor d h successor bm s =
     (case bm successor of
        Some b \<Rightarrow> Inr (b, bm, s)
      | None \<Rightarrow>
          (case block_at h successor of
             None \<Rightarrow> Inl AssertionError
           | Some blk \<Rightarrow>
               (case IBlock_from_mutable d h blk new_value_map new_block_map s of
                  Inl e \<Rightarrow> Inl e
                | Inr (newImmutableSuccessor, vm', bm', s') \<Rightarrow>
                    Inr (newImmutableSuccessor, bm(successor \<mapsto> newImmutableSuccessor), s'))))"
| "immutable_regions d h [] vm bm s = Inr ([], vm, bm, s)"
| "immutable_regions d h (region # rest) vm bm s =
     (case IRegion_from_mutable d h (m_blocks region) vm bm s of
        Inl e \<Rightarrow> Inl e
      | Inr (r, vm1, bm1, s1) \<Rightarrow>
          (case immutable_regions d h rest vm1 bm1 s1 of
             Inl e \<Rightarrow> Inl e
           | Inr (rs, vm2, bm2, s2) \<Rightarrow> Inr (r # rs, vm2, bm2, s2)))"
| "IRegion_from_mutable 0 h blks vm bm s = Inl RecursionError"
| "IRegion_from_mutable (Suc d) h blks vm bm s =
     (case immutable_blocks d h blks vm bm s of
        Inl e \<Rightarrow> Inl e
      | Inr (new_blocks, vm1, bm1, s1) \<Rightarrow>
          (if blks = [] then Inl IndexError
           else (case IRegion_init new_blocks s1 of
                   (r, s2) \<Rightarrow> Inr (r, vm1, bm1, s2))))"
| "immutable_blocks d h [] vm bm s = Inr ([], vm, bm, s)"
| "immutable_blocks d h (blk # rest) vm bm s =
     (case IBlock_from_mutable d h blk vm bm s of
        Inl e \<Rightarrow> Inl e
      | Inr (b, vm1, bm1, s1) \<Rightarrow>
          (case immutable_blocks d h rest vm1 bm1 s1 of
             Inl e \<Rightarrow> Inl e
           | Inr (bs, vm2, bm2, s2) \<Rightarrow> Inr (b # bs, vm2, bm2, s2)))"
| "IBlock_from_mutable 0 h blk vm bm s = Inl RecursionError"
| "IBlock_from_mutable (Suc d) h blk vm bm s =
     (case immutable_args (Block_args blk) vm s of
        (block_args, vm1, s1) \<Rightarrow>
          (case immutable_ops d h (m_ops blk) vm1 bm s1 of
             Inl e \<Rightarrow> Inl e
           | Inr (new_ops, vm2, bm1, s2) \<Rightarrow>
               (case IBlock_init (Inr block_args) new_ops s2 of
                  (b, s3) \<Rightarrow> Inr (b, vm2, bm1, s3))))"
| "immutable_ops d h [] vm bm s = Inr ([], vm, bm, s)"
| "immutable_ops d h (x # rest) vm bm s =
     (case IOp_from_mutable d h x vm bm None s of
        Inl e \<Rightarrow> Inl e
      | Inr (y, vm1, bm1, s1) \<Rightarrow>
          (case immutable_ops d h rest vm1 bm1 s1 of
             Inl e \<Rightarrow> Inl e
           | Inr (ys, vm2, bm2, s2) \<Rightarrow> Inr (y # ys, vm2, bm2, s2)))"
  by pat_completeness auto
termination
  by (relation "inv_image (less_than <*lex*> less_than <*lex*> less_than)
       (\<lambda>x. case x of
          Inl (Inl (Inl (d, rest))) \<Rightarrow> (d, 0::nat, 0::nat)
        | Inl (Inl (Inr (d, h, nm, vs, rest))) \<Rightarrow> (d, 2, length vs)
        | Inl (Inr (Inl (d, rest))) \<Rightarrow> (d, 1, 0)
        | Inl (Inr (Inr (Inl (d, h, bs, rest)))) \<Rightarrow> (d, 2, length bs)
        | Inl (Inr (Inr (Inr (d, rest)))) \<Rightarrow> (d, 1, 0)
        | Inr (Inl (Inl (d, h, rs, rest))) \<Rightarrow> (d, 2, length rs)
        | Inr (Inl (Inr (d, rest))) \<Rightarrow> (d, 0, 0)
        | Inr (Inr (Inl (d, h, bs, rest))) \<Rightarrow> (d, 2, length bs)
        | Inr (Inr (Inr (Inl (d, rest)))) \<Rightarrow> (d, 0, 0)
        | Inr (Inr (Inr (Inr (d, h, os, rest)))) \<Rightarrow> (d, 2, length os))")
     auto

text \<open>
  \<^verbatim>\<open>get_immutable_copy(op)\<close> is \<^verbatim>\<open>IOp.from_mutable(op, {})\<close>; the round trip converts
  the result back with empty dictionaries.
\<close>

definition get_immutable_copy ::
  "nat \<Rightarrow> 'a Operation \<Rightarrow> ir_state \<Rightarrow> py_error + 'a IOp" where
  "get_immutable_copy depth x s =
     (case IOp_from_mutable depth (heap_of x) x Map.empty new_block_map None s of
        Inl e \<Rightarrow> Inl e
      | Inr (y, vm, bm, s') \<Rightarrow> Inr y)"

definition round_trip ::
  "nat \<Rightarrow> 'a Operation \<Rightarrow> ir_state \<Rightarrow> m_state \<Rightarrow> py_error + ('a Operation \<times> m_state)" where
  "round_trip depth x s st =
     (case get_immutable_copy depth x s of
        Inl e \<Rightarrow> Inl e
      | Inr y \<Rightarrow>
          (case IOp_get_mutable_copy y Map.empty Map.empty st of
             Inl e \<Rightarrow> Inl e
           | Inr (x', vm, bm, st') \<Rightarrow> Inr (x', st')))"

text \<open>
  A module whose region has two blocks, the first ending in a branch to the second:
  \<^verbatim>\<open>builtin.module { ^bb0: cf.br ^bb1   ^bb1: }\<close>.
\<close>

definition branch_module :: "string Operation" where
  "branch_module =
     Operation 0 ''builtin.module'' (OpClass ''builtin.module'') [] [] [] []
       [Region [Block 1 [] [Operation 2 ''cf.br'' (OpClass ''cf.br'') [] [] [] [3] []],
                Block 3 [] []]]"

section \<open>Sealed lists: properties\<close>

lemma IList_frozen_guarded:
  "frozen l \<Longrightarrow>
     IList_append l x = Inl frozen_error \<and> IList_extend l xs = Inl frozen_error \<and>
     IList_insert l i x = Inl frozen_error \<and> IList_remove l x = Inl frozen_error \<and>
     IList_pop l idx = Inl frozen_error \<and> IList_clear l = Inl frozen_error"
  by (simp add: IList_append_def IList_extend_def IList_insert_def IList_remove_def IList_pop_def IList_clear_def)

text \<open>
  Claim C2. The six overridden methods raise on a sealed list (lemma
  \<open>IList_frozen_guarded\<close>), but a sealed list can still change: \<^verbatim>\<open>reverse\<close> is
  inherited from \<^verbatim>\<open>list\<close> without a guard, so on the sealed list \<open>[1, 2]\<close> it
  succeeds and leaves \<open>[2, 1]\<close>, and \<^verbatim>\<open>del l[0]\<close> shortens it to \<open>[2]\<close>.
\<close>

theorem IList_sealed_still_changes:
  "frozen (IList_freeze (IList_new [1::int, 2])) \<and>
   IList_reverse (IList_freeze (IList_new [1::int, 2])) = Inr \<lparr>items = [2, 1], frozen = True\<rparr> \<and>
   IList_delitem (IList_freeze (IList_new [1::int, 2])) 0 = Inr \<lparr>items = [2], frozen = True\<rparr>"
  by (simp add: IList_freeze_def IList_new_def IList_reverse_def IList_delitem_def)

section \<open>Constraint matcher: properties\<close>

lemma match_constraints_append:
  "match_constraints ga isi (pre @ post) ctx =
     (case match_constraints ga isi pre ctx of
        Inl e \<Rightarrow> Inl e
      | Inr None \<Rightarrow> Inr None
      | Inr (Some ctx') \<Rightarrow> match_constraints ga isi post ctx')"
  by (induction pre arbitrary: ctx) (auto split: sum.splits prod.splits)

lemma Variable_set_bound:
  "Variable_set var ctx val = (True, ctx') \<Longrightarrow> ctx' (name var) = Some val"
  by (auto simp: Variable_set_def split: option.splits)

lemma Variable_set_mono:
  "Variable_set var ctx val = (ok, ctx') \<Longrightarrow> ctx \<subseteq>\<^sub>m ctx'"
  by (auto simp: Variable_set_def map_le_def split: option.splits)

lemma Constraint_match_mono:
  "Constraint_match ga isi c ctx = Inr (ok, ctx') \<Longrightarrow> ctx \<subseteq>\<^sub>m ctx'"
  by (cases c)
     (auto simp: project_field_def split: sum.splits option.splits dest: Variable_set_mono)

text \<open>Bindings are never removed or replaced while the constraints run.\<close>

lemma match_constraints_mono:
  "match_constraints ga isi cs ctx = Inr (Some ctx') \<Longrightarrow> ctx \<subseteq>\<^sub>m ctx'"
proof (induction cs arbitrary: ctx)
  case Nil
  then show ?case by simp
next
  case (Cons c cs)
  then show ?case
    by (auto split: sum.splits prod.splits if_splits
             dest!: Constraint_match_mono intro: map_le_trans)
qed

lemma Constraint_match_binding:
  "binding ga c ctx = Some (var, val) \<Longrightarrow>
     Constraint_match ga isi c ctx = Inr (Variable_set var ctx val)"
  by (cases c)
     (auto simp: project_field_def Variable_get_def split: option.splits bind_splits)

lemma Query_match_Some_constraints:
  "Query_match ga isi q operation = Inr (Some m) \<Longrightarrow>
     \<exists>ctx. match_constraints ga isi (constraints q) [''root'' \<mapsto> operation] = Inr (Some ctx)
        \<and> m = ctx |` set (map name (variables q))"
  by (auto simp: Query_match_def Let_def split: sum.splits option.splits if_splits)

lemma two_bindings_agree:
  assumes q: "constraints q = pre @ c1 # mid @ c2 # post"
    and pre: "match_constraints ga isi pre [''root'' \<mapsto> operation] = Inr (Some ctx1)"
    and mid: "match_constraints ga isi (pre @ c1 # mid) [''root'' \<mapsto> operation] = Inr (Some ctx2)"
    and b1: "binding ga c1 ctx1 = Some (var, v1)"
    and b2: "binding ga c2 ctx2 = Some (var, v2)"
    and m: "Query_match ga isi q operation = Inr (Some m)"
  shows "v1 = v2"
proof -
  obtain ok1 ctx1' where s1: "Variable_set var ctx1 v1 = (ok1, ctx1')"
    by (cases "Variable_set var ctx1 v1")
  have c1: "Constraint_match ga isi c1 ctx1 = Inr (ok1, ctx1')"
    using Constraint_match_binding [OF b1] s1 by simp
  from mid pre c1 have ok1: "ok1" and mid': "match_constraints ga isi mid ctx1' = Inr (Some ctx2)"
    by (auto simp: match_constraints_append split: if_splits)
  from s1 ok1 have "ctx1' (name var) = Some v1"
    by (auto dest: Variable_set_bound)
  with match_constraints_mono [OF mid'] have bound: "ctx2 (name var) = Some v1"
    by (auto simp: map_le_def dom_def)
  then have s2: "Variable_set var ctx2 v2 = (v2 = v1, ctx2)"
    by (simp add: Variable_set_def)
  have c2: "Constraint_match ga isi c2 ctx2 = Inr (v2 = v1, ctx2)"
    using Constraint_match_binding [OF b2] s2 by simp
  from m obtain ctx where
    "match_constraints ga isi (constraints q) [''root'' \<mapsto> operation] = Inr (Some ctx)"
    by (auto dest: Query_match_Some_constraints)
  then have "match_constraints ga isi ((pre @ c1 # mid) @ c2 # post) [''root'' \<mapsto> operation]
               = Inr (Some ctx)"
    using q by simp
  then have "v2 = v1"
    unfolding match_constraints_append [of ga isi "pre @ c1 # mid"] using mid c2
    by (auto split: if_splits)
  then show ?thesis by simp
qed

text \<open>
  Claim C5, as amended. \<^verbatim>\<open>Query.match\<close> on a query whose first constraints \<open>pre\<close> all
  held, leaving the context \<open>ctx\<close>: if the next constraint evaluates to \<^verbatim>\<open>False\<close> the
  result is \<^verbatim>\<open>None\<close>; if the next constraint raises, the exception leaves
  \<^verbatim>\<open>Query.match\<close>; if no constraint is left and some declared variable is unbound in
  \<open>ctx\<close>, \<^verbatim>\<open>Query.match\<close> raises KeyError (it does not return \<^verbatim>\<open>None\<close>); if no
  constraint is left and every declared variable is bound, the result is the bindings of
  the declared variables.
\<close>

theorem Query_match_negative_results:
  fixes ga :: "'v \<Rightarrow> string \<Rightarrow> 'v option" and isi :: "'v \<Rightarrow> 't \<Rightarrow> bool"
  assumes pre: "match_constraints ga isi pre [''root'' \<mapsto> operation] = Inr (Some ctx)"
    and q: "constraints q = pre @ rest"
  shows "(\<forall>c post ctx'. rest = c # post \<and> Constraint_match ga isi c ctx = Inr (False, ctx')
            \<longrightarrow> Query_match ga isi q operation = Inr None)
       \<and> (\<forall>c post e. rest = c # post \<and> Constraint_match ga isi c ctx = Inl e
            \<longrightarrow> Query_match ga isi q operation = Inl e)
       \<and> (rest = [] \<and> (\<exists>var \<in> set (variables q). ctx (name var) = None)
            \<longrightarrow> Query_match ga isi q operation = Inl KeyError)
       \<and> (rest = [] \<and> (\<forall>var \<in> set (variables q). ctx (name var) \<noteq> None)
            \<longrightarrow> Query_match ga isi q operation
                  = Inr (Some (ctx |` set (map name (variables q)))))"
proof -
  have run: "match_constraints ga isi (constraints q) [''root'' \<mapsto> operation]
               = match_constraints ga isi rest ctx"
    using pre q by (simp add: match_constraints_append)
  have unbound: "\<not> list_all (\<lambda>n. ctx n \<noteq> None) (map name (variables q))"
    if "\<exists>var \<in> set (variables q). ctx (name var) = None"
    using that by (auto simp: list_all_iff)
  have bound: "list_all (\<lambda>n. ctx n \<noteq> None) (map name (variables q))"
    if "\<forall>var \<in> set (variables q). ctx (name var) \<noteq> None"
    using that by (auto simp: list_all_iff)
  show ?thesis
    unfolding Query_match_def run Let_def
    using unbound bound by (auto split: sum.splits option.splits)
qed

theorem Query_match_negative_results_witness:
  "match_constraints (\<lambda>obj field. None) (\<lambda>obj ty. obj = ty) [] [''root'' \<mapsto> 0::nat]
     = Inr (Some [''root'' \<mapsto> 0])
   \<and> Constraint_match (\<lambda>obj field. None) (\<lambda>obj ty. obj = ty)
        (TypeConstraint (Variable ''root'') (7::nat)) [''root'' \<mapsto> 0::nat]
     = Inr (False, [''root'' \<mapsto> 0])
   \<and> Query_match (\<lambda>obj field. None) (\<lambda>obj ty. obj = ty) (Query_root (7::nat)) (0::nat)
     = Inr None
   \<and> Constraint_match (\<lambda>obj field. None) (\<lambda>obj ty. obj = ty)
        (EqConstraint (Variable ''y'') (Variable ''x'')) [''root'' \<mapsto> 0::nat]
     = Inl KeyError
   \<and> Query_match (\<lambda>obj field. None) (\<lambda>obj ty. obj = ty)
        \<lparr>variables = [Variable ''root''],
         constraints = [EqConstraint (Variable ''y'') (Variable ''x'')]\<rparr> (0::nat)
     = Inl KeyError
   \<and> Query_match (\<lambda>obj field. None) (\<lambda>obj ty. obj = (ty::nat))
        \<lparr>variables = [Variable ''root'', Variable ''x''], constraints = []\<rparr> (0::nat)
     = Inl KeyError
   \<and> Query_match (\<lambda>obj field. None) (\<lambda>obj ty. obj = ty) (Query_root (0::nat)) (0::nat)
     = Inr (Some ([''root'' \<mapsto> 0] |` {''root''}))"
  using
    Query_match_negative_results [of "\<lambda>obj field. None" "\<lambda>obj ty. obj = ty" "[]" "0::nat"
      "[''root'' \<mapsto> 0]" "Query_root (7::nat)" "[TypeConstraint (Variable ''root'') 7]"]
    Query_match_negative_results [of "\<lambda>obj field. None" "\<lambda>obj ty. obj = ty" "[]" "0::nat"
      "[''root'' \<mapsto> 0]"
      "\<lparr>variables = [Variable ''root''],
        constraints = [EqConstraint (Variable ''y'') (Variable ''x'')]\<rparr>"
      "[EqConstraint (Variable ''y'') (Variable ''x'')]"]
    Query_match_negative_results [of "\<lambda>obj field. None" "\<lambda>obj ty. obj = (ty::nat)" "[]" "0::nat"
      "[''root'' \<mapsto> 0]"
      "\<lparr>variables = [Variable ''root'', Variable ''x''], constraints = []\<rparr>" "[]"]
    Query_match_negative_results [of "\<lambda>obj field. None" "\<lambda>obj ty. obj = ty" "[TypeConstraint (Variable ''root'') 0]" "0::nat"
      "[''root'' \<mapsto> 0]" "Query_root (0::nat)" "[]"]
  by (simp add: Query_root_def Variable_get_def)

text \<open>
  Claim C5 as stated fails: the query that declares the variables \<open>root\<close> and \<open>x\<close> and
  has no constraint leaves \<open>x\<close> unbound, and \<^verbatim>\<open>Query.match\<close> raises KeyError on any
  operation instead of returning \<^verbatim>\<open>None\<close>.
\<close>

theorem Query_match_unbound_counterexample:
  "Query_match (\<lambda>obj field. None) (\<lambda>obj ty. obj = (ty::nat))
     \<lparr>variables = [Variable ''root'', Variable ''x''], constraints = []\<rparr> (0::nat)
     = Inl KeyError
   \<and> Query_match (\<lambda>obj field. None) (\<lambda>obj ty. obj = (ty::nat))
     \<lparr>variables = [Variable ''root'', Variable ''x''], constraints = []\<rparr> (0::nat)
     \<noteq> Inr None"
  by (simp add: Query_match_def)

text \<open>
  Claim C6. \<^verbatim>\<open>Variable.set\<close> on an unbound variable stores the value and returns
  \<^verbatim>\<open>True\<close>; on a bound variable it leaves the context as it is and returns whether the
  value equals the bound one. Consequently, when a query matches and two of its
  constraints \<open>c1\<close> (evaluated in context \<open>ctx1\<close>) and \<open>c2\<close> (evaluated later, in context
  \<open>ctx2\<close>) hand values \<open>v1\<close> and \<open>v2\<close> for the same variable to \<^verbatim>\<open>set\<close>, then
  \<open>v1 = v2\<close>.
\<close>

theorem Variable_set_unifies:
  fixes ga :: "'v \<Rightarrow> string \<Rightarrow> 'v option" and isi :: "'v \<Rightarrow> 't \<Rightarrow> bool"
  shows "(ctx (name var) = None \<longrightarrow> Variable_set var ctx x = (True, ctx(name var \<mapsto> x)))
       \<and> (\<forall>y. ctx (name var) = Some y \<longrightarrow> Variable_set var ctx x = (x = y, ctx))
       \<and> (constraints q = pre @ c1 # mid @ c2 # post
            \<and> match_constraints ga isi pre [''root'' \<mapsto> operation] = Inr (Some ctx1)
            \<and> match_constraints ga isi (pre @ c1 # mid) [''root'' \<mapsto> operation] = Inr (Some ctx2)
            \<and> binding ga c1 ctx1 = Some (var, v1)
            \<and> binding ga c2 ctx2 = Some (var, v2)
            \<and> Query_match ga isi q operation = Inr (Some m)
          \<longrightarrow> v1 = v2)"
  using two_bindings_agree [of q pre c1 mid c2 post ga isi operation ctx1 ctx2 var v1 v2 m]
  by (auto simp: Variable_set_def)

text \<open>
  The witness: the operation \<open>0\<close> has the fields \<open>lhs = 1\<close>, \<open>rhs = 1\<close> and \<open>res = 2\<close>;
  the query binds \<open>x\<close> to \<open>lhs\<close> and then to \<open>rhs\<close> and matches. The last conjunct is
  the disagreeing query (\<open>lhs\<close>, then \<open>res\<close>), which does not match.
\<close>

theorem Variable_set_unifies_witness:
  "Variable_set (Variable ''x'') [''root'' \<mapsto> 0::nat] 1 = (True, [''root'' \<mapsto> 0, ''x'' \<mapsto> 1])
   \<and> Variable_set (Variable ''x'') [''root'' \<mapsto> 0::nat, ''x'' \<mapsto> 1] 1
       = (True, [''root'' \<mapsto> 0, ''x'' \<mapsto> 1])
   \<and> Variable_set (Variable ''x'') [''root'' \<mapsto> 0::nat, ''x'' \<mapsto> 1] 2
       = (False, [''root'' \<mapsto> 0, ''x'' \<mapsto> 1])
   \<and> binding (\<lambda>obj field. if obj = 0 \<and> field \<in> {''lhs'', ''rhs''} then Some (1::nat)
                            else if obj = 0 \<and> field = ''res'' then Some 2 else None)
        (OperationOperandConstraint (Variable ''root'') ''lhs'' (Variable ''x'') :: (nat, nat) Constraint)
        [''root'' \<mapsto> 0] = Some (Variable ''x'', 1)
   \<and> binding (\<lambda>obj field. if obj = 0 \<and> field \<in> {''lhs'', ''rhs''} then Some (1::nat)
                            else if obj = 0 \<and> field = ''res'' then Some 2 else None)
        (OperationOperandConstraint (Variable ''root'') ''rhs'' (Variable ''x'') :: (nat, nat) Constraint)
        [''root'' \<mapsto> 0, ''x'' \<mapsto> 1] = Some (Variable ''x'', 1)
   \<and> Query_match (\<lambda>obj field. if obj = 0 \<and> field \<in> {''lhs'', ''rhs''} then Some (1::nat)
                            else if obj = 0 \<and> field = ''res'' then Some 2 else None)
        (\<lambda>obj ty. obj = (ty::nat))
        \<lparr>variables = [Variable ''root'', Variable ''x''],
         constraints = [OperationOperandConstraint (Variable ''root'') ''lhs'' (Variable ''x''),
                        OperationOperandConstraint (Variable ''root'') ''rhs'' (Variable ''x'')]\<rparr>
        0 = Inr (Some ([''root'' \<mapsto> 0, ''x'' \<mapsto> 1] |` {''root'', ''x''}))
   \<and> Query_match (\<lambda>obj field. if obj = 0 \<and> field \<in> {''lhs'', ''rhs''} then Some (1::nat)
                            else if obj = 0 \<and> field = ''res'' then Some 2 else None)
        (\<lambda>obj ty. obj = (ty::nat))
        \<lparr>variables = [Variable ''root'', Variable ''x''],
         constraints = [OperationOperandConstraint (Variable ''root'') ''lhs'' (Variable ''x''),
                        OperationResultConstraint (Variable ''root'') ''res'' (Variable ''x'')]\<rparr>
        0 = Inr None"
  using Variable_set_unifies [of "[''root'' \<mapsto> 0::nat]" "Variable ''x''" 1
      "\<lparr>variables = [Variable ''root'', Variable ''x''],
         constraints = [OperationOperandConstraint (Variable ''root'') ''lhs'' (Variable ''x''),
                        OperationOperandConstraint (Variable ''root'') ''rhs'' (Variable ''x'')]\<rparr>"
      "[]" "OperationOperandConstraint (Variable ''root'') ''lhs'' (Variable ''x'')"
      "[]" "OperationOperandConstraint (Variable ''root'') ''rhs'' (Variable ''x'')" "[]"
      "\<lambda>obj field. if obj = 0 \<and> field \<in> {''lhs'', ''rhs''} then Some (1::nat)
                            else if obj = 0 \<and> field = ''res'' then Some 2 else None"
      "\<lambda>obj ty. obj = (ty::nat)" 0 "[''root'' \<mapsto> 0]" "[''root'' \<mapsto> 0, ''x'' \<mapsto> 1]"
      1 1 "[''root'' \<mapsto> 0, ''x'' \<mapsto> 1] |` {''root'', ''x''}"]
  by (simp add: Query_match_def project_field_def Variable_get_def Variable_set_def)

section \<open>Immutable IR: equality and hashing\<close>

lemma key_of_eq: "key_of v = key_of w \<longleftrightarrow> ISSAValue_eq v w"
  by (cases v; cases w) (auto simp: IOp_eq_def IBlockArg_eq_def)

lemma ISSAValue_eq_hash: "ISSAValue_eq v w \<Longrightarrow> ISSAValue_hash v = ISSAValue_hash w"
  by (cases v; cases w) (auto simp: IOp_eq_def IBlockArg_eq_def)

text \<open>
  Claim C9. \<^verbatim>\<open>==\<close> on \<^verbatim>\<open>IOp\<close>, \<^verbatim>\<open>IBlock\<close>, \<^verbatim>\<open>IRegion\<close> and \<^verbatim>\<open>IBlockArg\<close> holds exactly
  for the same instance; on two \<^verbatim>\<open>IResult\<close>s exactly when the producing operations are the
  same instance and the indices agree (the type is not compared); never between an
  \<^verbatim>\<open>IResult\<close> and an \<^verbatim>\<open>IBlockArg\<close>. The hashes follow the identity too: two operations,
  blocks, regions or block arguments have the same hash exactly when they are the same
  instance; the hash of an \<^verbatim>\<open>IResult\<close> is the hash of its operation plus the index, so
  two results of the same index have the same hash exactly when their operations are the
  same instance; equal values have equal hashes, and two values are the same dictionary
  key exactly when they are equal. Two operations, blocks or regions constructed one
  after the other from the same arguments have the same fields and are unequal with
  different hashes, and so are their results and arguments. (The attributes \<open>'a\<close> compare
  by value: their equality is the equality of the type.)
\<close>

theorem node_equality_is_identity:
  "(IOp_eq a b \<longleftrightarrow> op_id a = op_id b)
   \<and> (IBlock_eq blk blk' \<longleftrightarrow> block_id blk = block_id blk')
   \<and> (IRegion_eq r r' \<longleftrightarrow> region_id r = region_id r')
   \<and> (IBlockArg_eq arg arg' \<longleftrightarrow> arg_id arg = arg_id arg')
   \<and> (ISSAValue_eq (IResult ty a idx) (IResult ty' b idx') \<longleftrightarrow> IOp_eq a b \<and> idx = idx')
   \<and> \<not> ISSAValue_eq (IResult ty a idx) (IArg arg)
   \<and> \<not> ISSAValue_eq (IArg arg) (IResult ty a idx)
   \<and> (IOp_hash a = IOp_hash b \<longleftrightarrow> IOp_eq a b)
   \<and> (IBlock_hash blk = IBlock_hash blk' \<longleftrightarrow> IBlock_eq blk blk')
   \<and> (IRegion_hash r = IRegion_hash r' \<longleftrightarrow> IRegion_eq r r')
   \<and> (IBlockArg_hash arg = IBlockArg_hash arg' \<longleftrightarrow> IBlockArg_eq arg arg')
   \<and> ISSAValue_hash (IResult ty a idx) = IOp_hash a + idx
   \<and> ISSAValue_hash (IArg arg) = IBlockArg_hash arg
   \<and> (ISSAValue_hash (IResult ty a idx) = ISSAValue_hash (IResult ty' b idx) \<longleftrightarrow> IOp_eq a b)
   \<and> (ISSAValue_eq v w \<longrightarrow> ISSAValue_hash v = ISSAValue_hash w)
   \<and> (key_of v = key_of w \<longleftrightarrow> ISSAValue_eq v w)
   \<and> (IOp_get nm kind opnds tys attrs succs regs s = (x, s1)
        \<and> IOp_get nm kind opnds tys attrs succs regs s1 = (y, s2)
      \<longrightarrow> \<not> IOp_eq x y \<and> IOp_hash x \<noteq> IOp_hash y
          \<and> IOp_name x = IOp_name y \<and> IOp_op_type x = IOp_op_type y
          \<and> IOp_attributes x = IOp_attributes y \<and> operands x = operands y
          \<and> result_types x = result_types y \<and> successors x = successors y
          \<and> regions x = regions y
          \<and> (\<forall>v \<in> set (IOp_results x). \<forall>w \<in> set (IOp_results y). \<not> ISSAValue_eq v w)
          \<and> (\<forall>i < length tys. ISSAValue_hash (IOp_results x ! i) \<noteq> ISSAValue_hash (IOp_results y ! i)))
   \<and> (IBlock_init (Inl tys) os t = (blk1, t1) \<and> IBlock_init (Inl tys) os t1 = (blk2, t2)
      \<longrightarrow> \<not> IBlock_eq blk1 blk2 \<and> IBlock_hash blk1 \<noteq> IBlock_hash blk2 \<and> ops blk1 = ops blk2
          \<and> map arg_typ (args blk1) = map arg_typ (args blk2)
          \<and> map arg_index (args blk1) = map arg_index (args blk2)
          \<and> (\<forall>v \<in> set (args blk1). \<forall>w \<in> set (args blk2).
                \<not> IBlockArg_eq v w \<and> IBlockArg_hash v \<noteq> IBlockArg_hash w))
   \<and> (IRegion_init blks u = (r1, u1) \<and> IRegion_init blks u1 = (r2, u2)
      \<longrightarrow> \<not> IRegion_eq r1 r2 \<and> IRegion_hash r1 \<noteq> IRegion_hash r2 \<and> blocks r1 = blocks r2)"
proof -
  have eqs: "(IOp_eq a b \<longleftrightarrow> op_id a = op_id b)
   \<and> (IBlock_eq blk blk' \<longleftrightarrow> block_id blk = block_id blk')
   \<and> (IRegion_eq r r' \<longleftrightarrow> region_id r = region_id r')
   \<and> (IBlockArg_eq arg arg' \<longleftrightarrow> arg_id arg = arg_id arg')
   \<and> (ISSAValue_eq (IResult ty a idx) (IResult ty' b idx') \<longleftrightarrow> IOp_eq a b \<and> idx = idx')
   \<and> \<not> ISSAValue_eq (IResult ty a idx) (IArg arg)
   \<and> \<not> ISSAValue_eq (IArg arg) (IResult ty a idx)"
    by (simp add: IOp_eq_def IBlock_eq_def IRegion_eq_def IBlockArg_eq_def)
  have hashes: "(IOp_hash a = IOp_hash b \<longleftrightarrow> IOp_eq a b)
   \<and> (IBlock_hash blk = IBlock_hash blk' \<longleftrightarrow> IBlock_eq blk blk')
   \<and> (IRegion_hash r = IRegion_hash r' \<longleftrightarrow> IRegion_eq r r')
   \<and> (IBlockArg_hash arg = IBlockArg_hash arg' \<longleftrightarrow> IBlockArg_eq arg arg')
   \<and> ISSAValue_hash (IResult ty a idx) = IOp_hash a + idx
   \<and> ISSAValue_hash (IArg arg) = IBlockArg_hash arg
   \<and> (ISSAValue_hash (IResult ty a idx) = ISSAValue_hash (IResult ty' b idx) \<longleftrightarrow> IOp_eq a b)
   \<and> (ISSAValue_eq v w \<longrightarrow> ISSAValue_hash v = ISSAValue_hash w)
   \<and> (key_of v = key_of w \<longleftrightarrow> ISSAValue_eq v w)"
    by (simp add: IOp_eq_def IBlock_eq_def IRegion_eq_def IBlockArg_eq_def IOp_hash_def
          IBlock_hash_def IRegion_hash_def IBlockArg_hash_def key_of_eq ISSAValue_eq_hash)
  have built: "(IOp_get nm kind opnds tys attrs succs regs s = (x, s1)
        \<and> IOp_get nm kind opnds tys attrs succs regs s1 = (y, s2)
      \<longrightarrow> \<not> IOp_eq x y \<and> IOp_hash x \<noteq> IOp_hash y
          \<and> IOp_name x = IOp_name y \<and> IOp_op_type x = IOp_op_type y
          \<and> IOp_attributes x = IOp_attributes y \<and> operands x = operands y
          \<and> result_types x = result_types y \<and> successors x = successors y
          \<and> regions x = regions y
          \<and> (\<forall>v \<in> set (IOp_results x). \<forall>w \<in> set (IOp_results y). \<not> ISSAValue_eq v w)
          \<and> (\<forall>i < length tys. ISSAValue_hash (IOp_results x ! i) \<noteq> ISSAValue_hash (IOp_results y ! i)))
   \<and> (IBlock_init (Inl tys) os t = (blk1, t1) \<and> IBlock_init (Inl tys) os t1 = (blk2, t2)
      \<longrightarrow> \<not> IBlock_eq blk1 blk2 \<and> IBlock_hash blk1 \<noteq> IBlock_hash blk2 \<and> ops blk1 = ops blk2
          \<and> map arg_typ (args blk1) = map arg_typ (args blk2)
          \<and> map arg_index (args blk1) = map arg_index (args blk2)
          \<and> (\<forall>v \<in> set (args blk1). \<forall>w \<in> set (args blk2).
                \<not> IBlockArg_eq v w \<and> IBlockArg_hash v \<noteq> IBlockArg_hash w))
   \<and> (IRegion_init blks u = (r1, u1) \<and> IRegion_init blks u1 = (r2, u2)
      \<longrightarrow> \<not> IRegion_eq r1 r2 \<and> IRegion_hash r1 \<noteq> IRegion_hash r2 \<and> blocks r1 = blocks r2)"
    by (auto simp: IOp_eq_def IBlock_eq_def IRegion_eq_def IBlockArg_eq_def IOp_get_def IOp_init_def
      IOp_name_def IOp_op_type_def IOp_attributes_def IOp_results_def IBlock_init_def Let_def
      IRegion_init_def in_set_enumerate_eq IOp_hash_def IBlock_hash_def IRegion_hash_def
      IBlockArg_hash_def nth_enumerate_eq)
  from eqs hashes built show ?thesis by simp
qed

theorem node_equality_is_identity_witness:
  "IOp_get ''arith.constant'' (OpClass ''arith.constant'') [] [''i32''] [(''value'', ''1'')] [] []
      \<lparr>next_id = 0, arg_block = Map.empty\<rparr>
     = (IOp 1 (OpData 0 ''arith.constant'' (OpClass ''arith.constant'') [(''value'', ''1'')])
            [] [''i32''] [] [],
        \<lparr>next_id = 2, arg_block = Map.empty\<rparr>)
   \<and> IOp_get ''arith.constant'' (OpClass ''arith.constant'') [] [''i32''] [(''value'', ''1'')] [] []
      \<lparr>next_id = 2, arg_block = Map.empty\<rparr>
     = (IOp 3 (OpData 2 ''arith.constant'' (OpClass ''arith.constant'') [(''value'', ''1'')])
            [] [''i32''] [] [],
        \<lparr>next_id = 4, arg_block = Map.empty\<rparr>)
   \<and> \<not> IOp_eq
        (IOp 1 (OpData 0 ''arith.constant'' (OpClass ''arith.constant'') [(''value'', ''1'')])
            [] [''i32''] [] [])
        (IOp 3 (OpData 2 ''arith.constant'' (OpClass ''arith.constant'') [(''value'', ''1'')])
            [] [''i32''] [] [])
   \<and> IOp_hash
        (IOp 1 (OpData 0 ''arith.constant'' (OpClass ''arith.constant'') [(''value'', ''1'')])
            [] [''i32''] [] []) = 1
   \<and> IOp_hash
        (IOp 3 (OpData 2 ''arith.constant'' (OpClass ''arith.constant'') [(''value'', ''1'')])
            [] [''i32''] [] []) = 3
   \<and> ISSAValue_hash (IResult ''i32''
        (IOp 1 (OpData 0 ''arith.constant'' (OpClass ''arith.constant'') [(''value'', ''1'')])
            [] [''i32''] [] []) 0) = 1
   \<and> ISSAValue_hash (IResult ''i32''
        (IOp 3 (OpData 2 ''arith.constant'' (OpClass ''arith.constant'') [(''value'', ''1'')])
            [] [''i32''] [] []) 0) = 3
   \<and> IBlock_init (Inl [''i32'']) ([] :: string IOp list) \<lparr>next_id = 0, arg_block = Map.empty\<rparr>
     = (IBlock 0 [IBlockArg 1 ''i32'' 0] [], \<lparr>next_id = 2, arg_block = [1 \<mapsto> 0]\<rparr>)
   \<and> IBlock_init (Inl [''i32'']) ([] :: string IOp list) \<lparr>next_id = 2, arg_block = [1 \<mapsto> 0]\<rparr>
     = (IBlock 2 [IBlockArg 3 ''i32'' 0] [], \<lparr>next_id = 4, arg_block = [1 \<mapsto> 0, 3 \<mapsto> 2]\<rparr>)
   \<and> \<not> IBlock_eq (IBlock 0 [IBlockArg 1 ''i32'' 0] ([] :: string IOp list))
                   (IBlock 2 [IBlockArg 3 ''i32'' 0] [])
   \<and> IBlock_hash (IBlock 0 [IBlockArg 1 ''i32'' 0] ([] :: string IOp list)) = 0
   \<and> IBlock_hash (IBlock 2 [IBlockArg 3 ''i32'' 0] ([] :: string IOp list)) = 2
   \<and> \<not> IBlockArg_eq (IBlockArg 1 ''i32'' 0) (IBlockArg 3 ''i32'' 0)
   \<and> IBlockArg_hash (IBlockArg 1 ''i32'' 0) = 1
   \<and> IBlockArg_hash (IBlockArg 3 ''i32'' 0) = 3
   \<and> IRegion_init ([] :: string IBlock list) \<lparr>next_id = 0, arg_block = Map.empty\<rparr>
     = (IRegion 0 [], \<lparr>next_id = 1, arg_block = Map.empty\<rparr>)
   \<and> IRegion_init ([] :: string IBlock list) \<lparr>next_id = 1, arg_block = Map.empty\<rparr>
     = (IRegion 1 [], \<lparr>next_id = 2, arg_block = Map.empty\<rparr>)
   \<and> \<not> IRegion_eq (IRegion 0 ([] :: string IBlock list)) (IRegion 1 [])
   \<and> IRegion_hash (IRegion 0 ([] :: string IBlock list)) = 0
   \<and> IRegion_hash (IRegion 1 ([] :: string IBlock list)) = 1"
  using node_equality_is_identity [where
      a = "IOp 1 (OpData 0 ''arith.constant'' (OpClass ''arith.constant'') [(''value'', ''1'')])
            [] [''i32''] [] []"
      and b = "IOp 3 (OpData 2 ''arith.constant'' (OpClass ''arith.constant'') [(''value'', ''1'')])
            [] [''i32''] [] []"
      and blk = "IBlock 0 [IBlockArg 1 ''i32'' 0] []" and blk' = "IBlock 2 [IBlockArg 3 ''i32'' 0] []"
      and r = "IRegion 0 []" and r' = "IRegion 1 []"
      and arg = "IBlockArg 1 ''i32'' 0" and arg' = "IBlockArg 3 ''i32'' 0"
      and ty = "''i32''" and idx = 0 and ty' = "''i32''" and idx' = 0
      and v = "IArg (IBlockArg 1 ''i32'' 0)" and w = "IArg (IBlockArg 3 ''i32'' 0)"
      and nm = "''arith.constant''" and kind = "OpClass ''arith.constant''" and opnds = "[]"
      and tys = "[''i32'']" and attrs = "[(''value'', ''1'')]" and succs = "[]" and regs = "[]"
      and s = "\<lparr>next_id = 0, arg_block = Map.empty\<rparr>"
      and x = "IOp 1 (OpData 0 ''arith.constant'' (OpClass ''arith.constant'') [(''value'', ''1'')])
            [] [''i32''] [] []"
      and ?s1.0 = "\<lparr>next_id = 2, arg_block = Map.empty\<rparr>"
      and y = "IOp 3 (OpData 2 ''arith.constant'' (OpClass ''arith.constant'') [(''value'', ''1'')])
            [] [''i32''] [] []"
      and ?s2.0 = "\<lparr>next_id = 4, arg_block = Map.empty\<rparr>"
      and os = "[]" and t = "\<lparr>next_id = 0, arg_block = Map.empty\<rparr>"
      and ?blk1.0 = "IBlock 0 [IBlockArg 1 ''i32'' 0] []"
      and ?t1.0 = "\<lparr>next_id = 2, arg_block = [1 \<mapsto> 0]\<rparr>"
      and ?blk2.0 = "IBlock 2 [IBlockArg 3 ''i32'' 0] []"
      and ?t2.0 = "\<lparr>next_id = 4, arg_block = [1 \<mapsto> 0, 3 \<mapsto> 2]\<rparr>"
      and blks = "[]" and u = "\<lparr>next_id = 0, arg_block = Map.empty\<rparr>"
      and ?r1.0 = "IRegion 0 []" and ?u1.0 = "\<lparr>next_id = 1, arg_block = Map.empty\<rparr>"
      and ?r2.0 = "IRegion 1 []" and ?u2.0 = "\<lparr>next_id = 2, arg_block = Map.empty\<rparr>"]
  by (simp add: IOp_get_def IOp_init_def IBlock_init_def IRegion_init_def set_block_def
        IOp_eq_def IBlock_eq_def IBlockArg_eq_def IRegion_eq_def
        IOp_hash_def IBlock_hash_def IBlockArg_hash_def IRegion_hash_def)
section \<open>Rewrite combinators: properties\<close>


lemma length_IOp_results [simp]: "length (IOp_results x) = length (result_types x)"
  by (simp add: IOp_results_def)

lemma typ_IOp_results [simp]: "map ISSAValue_typ (IOp_results x) = result_types x"
  by (auto simp: IOp_results_def intro!: nth_equalityI simp: nth_enumerate_eq)


lemma from_op_new_attributes:
  assumes unpack: "unpack_operands (case opnds of None \<Rightarrow> map Value (operands old_op) | Some x \<Rightarrow> x) None
                     = Inr (new_operands, rewritten_ops)"
  shows "\<exists>x. from_op old_op opnds res_types (Some attrs) succs regs None s
                     = Inr (rewritten_ops @ [x], None, s\<lparr>next_id := Suc (Suc (next_id s))\<rparr>)
          \<and> op_data x = OpData (next_id s) (IOp_name old_op) (IOp_op_type old_op) attrs"
  using unpack by (simp add: from_op_def IOp_get_def IOp_init_def)


lemma resolve_operand_value:
  "resolve_operand operand rw = Inr (v, rw') \<Longrightarrow>
     \<exists>rw2'. resolve_operand operand rw2 = Inr (v, rw2')"
  by (auto simp: resolve_operand_def split: Operand.splits option.splits if_splits)

lemma unpack_operand_value:
  "unpack_operand env operand rw = Inr (u, rw') \<Longrightarrow> resolve_operand operand rw0 = Inr (v, rw0')
     \<Longrightarrow> forward_rewrite_id (env_get env v) = Inr u"
  using resolve_operand_value [of operand rw0 v rw0' rw]
  by (auto simp: unpack_operand_def split: sum.splits)

lemma unpack_loop_prefix:
  "unpack_loop env opnds acc rw = Inr (unpacked, rw') \<Longrightarrow>
     length unpacked = length acc + length opnds \<and> take (length acc) unpacked = acc"
proof (induction opnds arbitrary: acc rw)
  case Nil
  then show ?case by simp
next
  case (Cons operand rest)
  then obtain v rw1 where step: "unpack_operand env operand rw = Inr (v, rw1)"
    and loop: "unpack_loop env rest (acc @ [v]) rw1 = Inr (unpacked, rw')"
    by (auto split: sum.splits)
  from Cons.IH [OF loop] have len: "length unpacked = length acc + 1 + length rest"
    and pre: "take (length acc + 1) unpacked = acc @ [v]" by simp_all
  from pre have "take (length acc) (take (length acc + 1) unpacked) = acc" by simp
  then have "take (length acc) unpacked = acc" by (simp add: min_def)
  with len show ?case by simp
qed

lemma unpack_loop_nth:
  "unpack_loop env opnds acc rw = Inr (unpacked, rw') \<Longrightarrow> k < length opnds \<Longrightarrow>
     \<exists>rwk rwk'. unpack_operand env (opnds ! k) rwk = Inr (unpacked ! (length acc + k), rwk')"
proof (induction opnds arbitrary: acc rw k)
  case Nil
  then show ?case by simp
next
  case (Cons operand rest)
  then obtain v rw1 where step: "unpack_operand env operand rw = Inr (v, rw1)"
    and loop: "unpack_loop env rest (acc @ [v]) rw1 = Inr (unpacked, rw')"
    by (auto split: sum.splits)
  show ?case
  proof (cases k)
    case 0
    from unpack_loop_prefix [OF loop] have "take (length acc + 1) unpacked = acc @ [v]"
      and "length acc < length unpacked" by simp_all
    then have "unpacked ! length acc = v"
      by (metis add.right_neutral add_Suc_right lessI nth_append_length nth_take One_nat_def)
    with step 0 show ?thesis by auto
  next
    case (Suc j)
    with Cons.prems have "j < length rest" by simp
    from Cons.IH [OF loop this] Suc show ?thesis by simp
  qed
qed

lemma forward_rewrite_id_RewriteId:
  "IOp_op_type producer = RewriteId \<Longrightarrow>
     forward_rewrite_id (IResult ty producer idx)
       = (if operands producer = [] then Inl IndexError else Inr (last (operands producer)))"
  by (simp add: forward_rewrite_id_def)

lemma operand_not_own_result:
  assumes "v \<in> set (operands producer)"
  shows "v \<noteq> IResult ty producer idx"
proof
  assume "v = IResult ty producer idx"
  then have "size v > size producer" by simp
  moreover have "size v < size producer"
    using assms by (cases producer) (auto simp: less_Suc_eq_le dest!: size_list_estimation'[where f = size, OF _ order_refl])
  ultimately show False by simp
qed

lemma unpack_operands_forwarded:
  assumes run: "unpack_operands opnds env = Inr (unpacked, rewritten)"
    and k: "k < length opnds"
    and res: "resolve_operand (opnds ! k) [] = Inr (v, rw)"
    and v: "env_get (case env of None \<Rightarrow> Map.empty | Some e \<Rightarrow> e) v = IResult ty producer idx"
    and kind: "IOp_op_type producer = RewriteId"
  shows "operands producer \<noteq> [] \<and> length unpacked = length opnds
         \<and> unpacked ! k = last (operands producer)
         \<and> unpacked ! k \<noteq> IResult ty producer idx"
proof -
  let ?e = "case env of None \<Rightarrow> Map.empty | Some e \<Rightarrow> e"
  from run have loop: "unpack_loop ?e opnds [] [] = Inr (unpacked, rewritten)"
    by (simp add: unpack_operands_def)
  from unpack_loop_nth [OF loop k] obtain rwk rwk' where
    "unpack_operand ?e (opnds ! k) rwk = Inr (unpacked ! k, rwk')" by auto
  from unpack_operand_value [OF this res] v
  have fwd: "forward_rewrite_id (IResult ty producer idx) = Inr (unpacked ! k)" by simp
  with kind have ne: "operands producer \<noteq> []" and eq: "unpacked ! k = last (operands producer)"
    by (auto simp: forward_rewrite_id_RewriteId split: if_splits)
  from ne have "last (operands producer) \<in> set (operands producer)" by simp
  then have "last (operands producer) \<noteq> IResult ty producer idx"
    by (rule operand_not_own_result)
  with ne eq unpack_loop_prefix [OF loop] show ?thesis by simp
qed

text \<open>
  Claim C10. Let the \<open>k\<close>-th operand resolve (through \<^verbatim>\<open>env\<close>, if one is given) to
  result \<open>idx\<close> of an operation \<open>producer\<close> of kind \<^verbatim>\<open>RewriteId\<close>. Whenever
  \<^verbatim>\<open>_unpack_operands\<close>, \<^verbatim>\<open>new_op\<close> or \<^verbatim>\<open>from_op\<close> returns, the \<open>k\<close>-th operand it
  produced is the last operand of \<open>producer\<close> and not that result. (If \<open>producer\<close> has
  no operand, \<^verbatim>\<open>operands[-1]\<close> raises IndexError and nothing is constructed.)
\<close>

theorem rewrite_id_result_forwarded:
  assumes k: "k < length opnds"
    and res: "resolve_operand (opnds ! k) [] = Inr (v, rw)"
    and v: "env_get (case env of None \<Rightarrow> Map.empty | Some e \<Rightarrow> e) v = IResult ty producer idx"
    and kind: "IOp_op_type producer = RewriteId"
  shows "(\<forall>unpacked rewritten. unpack_operands opnds env = Inr (unpacked, rewritten)
            \<longrightarrow> operands producer \<noteq> [] \<and> length unpacked = length opnds
                \<and> unpacked ! k = last (operands producer)
                \<and> unpacked ! k \<noteq> IResult ty producer idx)
       \<and> (\<forall>result s'. env = None
                \<and> new_op kind' (Some opnds) res_types attrs succs regs s = Inr (result, s')
            \<longrightarrow> operands (last result) ! k = last (operands producer)
                \<and> operands (last result) ! k \<noteq> IResult ty producer idx)
       \<and> (\<forall>result env' s'.
              from_op old_op (Some opnds) res_types attrs succs regs env s = Inr (result, env', s')
            \<longrightarrow> operands (last result) ! k = last (operands producer)
                \<and> operands (last result) ! k \<noteq> IResult ty producer idx)
       \<and> (operands producer = []
            \<longrightarrow> unpack_operand (case env of None \<Rightarrow> Map.empty | Some e \<Rightarrow> e) (opnds ! k) []
                  = Inl IndexError)"
proof (intro conjI allI impI)
  fix unpacked rewritten
  assume run: "unpack_operands opnds env = Inr (unpacked, rewritten)"
  from unpack_operands_forwarded [OF run k res v kind]
  show "operands producer \<noteq> []" "length unpacked = length opnds"
    "unpacked ! k = last (operands producer)" "unpacked ! k \<noteq> IResult ty producer idx"
    by auto
next
  fix result s'
  assume a: "env = None \<and> new_op kind' (Some opnds) res_types attrs succs regs s = Inr (result, s')"
  then obtain unpacked rewritten where run: "unpack_operands opnds env = Inr (unpacked, rewritten)"
    and "operands (last result) = unpacked"
    by (auto simp: new_op_def IOp_get_def IOp_init_def split: sum.splits)
  with unpack_operands_forwarded [OF run k res v kind]
  show "operands (last result) ! k = last (operands producer)"
    "operands (last result) ! k \<noteq> IResult ty producer idx" by auto
next
  fix result env' s'
  assume a: "from_op old_op (Some opnds) res_types attrs succs regs env s = Inr (result, env', s')"
  then obtain unpacked rewritten where run: "unpack_operands opnds env = Inr (unpacked, rewritten)"
    and "operands (last result) = unpacked"
    by (auto simp: from_op_def IOp_get_def IOp_init_def Let_def split: sum.splits option.splits)
  with unpack_operands_forwarded [OF run k res v kind]
  show "operands (last result) ! k = last (operands producer)"
    "operands (last result) ! k \<noteq> IResult ty producer idx" by auto
next
  assume "operands producer = []"
  with res v kind show "unpack_operand (case env of None \<Rightarrow> Map.empty | Some e \<Rightarrow> e) (opnds ! k) [] = Inl IndexError"
    by (simp add: unpack_operand_def forward_rewrite_id_RewriteId)
qed

theorem rewrite_id_result_forwarded_witness:
  "(0::nat) < length [Single (IOp 3 (OpData 2 ''rewrite.id'' RewriteId [])
                       [IArg (IBlockArg 1 ''i32'' 0)] [''i32''] [] [])]
   \<and> resolve_operand
        ([Single (IOp 3 (OpData 2 ''rewrite.id'' RewriteId [])
                       [IArg (IBlockArg 1 ''i32'' 0)] [''i32''] [] [])] ! 0) []
       = Inr (IResult ''i32'' (IOp 3 (OpData 2 ''rewrite.id'' RewriteId [])
                       [IArg (IBlockArg 1 ''i32'' 0)] [''i32''] [] []) 0, [])
   \<and> IOp_op_type (IOp 3 (OpData 2 ''rewrite.id'' RewriteId [])
                       [IArg (IBlockArg 1 ''i32'' 0)] [''i32''] [] []) = RewriteId
   \<and> new_op (OpClass ''test.use'')
        (Some [Single (IOp 3 (OpData 2 ''rewrite.id'' RewriteId [])
                       [IArg (IBlockArg 1 ''i32'' 0)] [''i32''] [] [])])
        None None None None \<lparr>next_id = 10, arg_block = Map.empty\<rparr>
       = Inr ([IOp 11 (OpData 10 ''test.use'' (OpClass ''test.use'') [])
                 [IArg (IBlockArg 1 ''i32'' 0)] [] [] []],
              \<lparr>next_id = 12, arg_block = Map.empty\<rparr>)"
  using rewrite_id_result_forwarded [where k = 0
      and opnds = "[Single (IOp 3 (OpData 2 ''rewrite.id'' RewriteId [])
                       [IArg (IBlockArg 1 ''i32'' 0)] [''i32''] [] [])]"
      and v = "IResult ''i32'' (IOp 3 (OpData 2 ''rewrite.id'' RewriteId [])
                       [IArg (IBlockArg 1 ''i32'' 0)] [''i32''] [] []) 0"
      and rw = "[]" and env = None and ty = "''i32''" and idx = 0
      and producer = "IOp 3 (OpData 2 ''rewrite.id'' RewriteId [])
                       [IArg (IBlockArg 1 ''i32'' 0)] [''i32''] [] []"
      and kind' = "OpClass ''test.use''" and res_types = None and attrs = None
      and succs = None and regs = None and s = "\<lparr>next_id = 10, arg_block = Map.empty\<rparr>"]
  by (simp add: resolve_operand_def IOp_result_def IOp_results_def IOp_op_type_def new_op_def
        unpack_operands_def unpack_operand_def forward_rewrite_id_def env_get_def IOp_get_def
        IOp_init_def)

lemma IOp_eq_inj:
  "inj_on op_id A \<Longrightarrow> x \<in> A \<Longrightarrow> y \<in> A \<Longrightarrow> IOp_eq x y \<longleftrightarrow> x = y"
  by (auto simp: IOp_eq_def dest: inj_onD)

lemma list_ex_IOp_eq:
  "inj_on op_id A \<Longrightarrow> x \<in> A \<Longrightarrow> set rw \<subseteq> A \<Longrightarrow> list_ex (IOp_eq x) rw \<longleftrightarrow> x \<in> set rw"
  by (auto simp: list_ex_iff IOp_eq_def dest: inj_onD)

lemma remove_first_IOp_eq:
  "inj_on op_id A \<Longrightarrow> x \<in> A \<Longrightarrow> set rw \<subseteq> A \<Longrightarrow> remove_first (IOp_eq x) rw = remove1 x rw"
proof (induction rw)
  case Nil
  then show ?case by simp
next
  case (Cons y rw)
  then have "IOp_eq x y \<longleftrightarrow> x = y" by (auto simp: IOp_eq_inj)
  with Cons show ?case by auto
qed

lemma remove1_filter: "distinct xs \<Longrightarrow> remove1 x xs = filter (\<lambda>z. z \<noteq> x) xs"
proof (induction xs)
  case Nil
  then show ?case by simp
next
  case (Cons y xs)
  have "filter (\<lambda>z. z \<noteq> x) xs = xs" if "x \<notin> set xs"
    using that by (induction xs) auto
  with Cons show ?case by auto
qed

lemma prepend_ops_eq:
  assumes "inj_on op_id A"
  shows "distinct rw \<Longrightarrow> set ys \<subseteq> A \<Longrightarrow> set rw \<subseteq> A \<Longrightarrow>
     prepend_ops ys rw = rev (remdups ys) @ filter (\<lambda>z. z \<notin> set ys) rw"
proof (induction ys arbitrary: rw)
  case Nil
  then show ?case by simp
next
  case (Cons y ys)
  let ?rw = "y # remove1 y rw"
  have step: "prepend_ops (y # ys) rw = prepend_ops ys ?rw"
    using Cons.prems assms
    by (auto simp: list_ex_IOp_eq [OF assms] remove_first_IOp_eq [OF assms] remove1_idem)
  have d: "distinct ?rw" using Cons.prems by auto
  have s: "set ?rw \<subseteq> A" using Cons.prems by auto
  have "prepend_ops ys ?rw = rev (remdups ys) @ filter (\<lambda>z. z \<notin> set ys) ?rw"
    using Cons.IH [OF d _ s] Cons.prems by simp
  also have "\<dots> = rev (remdups (y # ys)) @ filter (\<lambda>z. z \<notin> set (y # ys)) rw"
    using Cons.prems(1) by (auto simp: remove1_filter intro: filter_cong)
  finally show ?case using step by simp
qed

lemma nfr_append:
  "no_forward_reference (xs @ ys) \<longleftrightarrow>
     no_forward_reference xs \<and> no_forward_reference ys
     \<and> (\<forall>x \<in> set xs. \<forall>y \<in> set ys. \<not> references x y)"
  by (induction xs) (auto simp: list_all_iff)

lemma nfr_filter: "no_forward_reference xs \<Longrightarrow> no_forward_reference (filter P xs)"
  by (induction xs) (auto simp: list_all_iff)

lemma self_contained_butlast:
  "self_contained U (L @ [x]) \<Longrightarrow> self_contained U L"
  unfolding self_contained_def
proof (intro allI impI ballI)
  fix i y
  assume sc: "\<forall>i<length (L @ [x]). \<forall>y\<in>set U. references ((L @ [x]) ! i) y \<longrightarrow> y \<in> set (take i (L @ [x]))"
    and i: "i < length L" and y: "y \<in> set U" and r: "references (L ! i) y"
  from sc i y r have "y \<in> set (take i (L @ [x]))" by (auto simp: nth_append)
  with i show "y \<in> set (take i L)" by simp
qed

lemma self_contained_member:
  assumes "self_contained U L" "d \<in> set L" "y \<in> set U" "references d y"
  shows "y \<in> set L"
proof -
  from assms(2) obtain i where "i < length L" "L ! i = d" by (auto simp: in_set_conv_nth)
  with assms have "y \<in> set (take i L)" by (auto simp: self_contained_def)
  then show ?thesis by (auto dest: in_set_takeD)
qed

lemma keep_first_snoc:
  "rev (remdups (rev (L @ [x]))) = (if x \<in> set L then rev (remdups (rev L)) else rev (remdups (rev L)) @ [x])"
  by simp

lemma nfr_keep_first:
  "self_contained U L \<Longrightarrow> set L \<subseteq> set U \<Longrightarrow> no_forward_reference (rev (remdups (rev L)))"
proof (induction L rule: rev_induct)
  case Nil
  then show ?case by simp
next
  case (snoc x L)
  from snoc.prems have sc: "self_contained U L" and sub: "set L \<subseteq> set U" and xU: "x \<in> set U"
    by (auto dest: self_contained_butlast)
  note IH = snoc.IH [OF sc sub]
  show ?case
  proof (cases "x \<in> set L")
    case True
    with IH show ?thesis by simp
  next
    case False
    have "\<not> references d x" if "d \<in> set L" for d
      using self_contained_member [OF sc that xU] False by auto
    with IH False show ?thesis by (simp add: nfr_append)
  qed
qed

lemma nfr_merge:
  assumes sc: "self_contained U L" and L: "set L \<subseteq> set U" and rw: "set rw \<subseteq> set U"
    and nfr: "no_forward_reference rw"
  shows "no_forward_reference (rev (remdups (rev L)) @ filter (\<lambda>z. z \<notin> set (rev L)) rw)"
proof -
  have "\<not> references d f" if "d \<in> set L" "f \<in> set rw" "f \<notin> set L" for d f
    using self_contained_member [OF sc that(1) _] that rw by auto
  with nfr_keep_first [OF sc L] nfr_filter [OF nfr] show ?thesis
    by (auto simp: nfr_append)
qed

lemma unpack_operand_rewritten:
  "unpack_operand env operand rw = Inr (v, rw') \<Longrightarrow>
     rw' = (case operand of Many xs \<Rightarrow> prepend_ops (rev xs) rw | Value w \<Rightarrow> rw | Single x \<Rightarrow> rw)"
  by (auto simp: unpack_operand_def resolve_operand_def
           split: sum.splits Operand.splits option.splits if_splits)

lemma unpack_loop_rewritten:
  assumes inj: "inj_on op_id (set U)"
  shows "unpack_loop env opnds acc rw = Inr (u, rw') \<Longrightarrow> distinct rw \<Longrightarrow> set rw \<subseteq> set U
     \<Longrightarrow> set (listed_ops opnds) \<subseteq> set U
     \<Longrightarrow> distinct rw' \<and> set rw' = set rw \<union> set (listed_ops opnds)
         \<and> ((\<forall>xs. Many xs \<in> set opnds \<longrightarrow> self_contained U xs)
              \<longrightarrow> no_forward_reference rw \<longrightarrow> no_forward_reference rw')"
proof (induction opnds arbitrary: acc rw)
  case Nil
  then show ?case by simp
next
  case (Cons operand rest)
  from Cons.prems(1) obtain v rw1 where step: "unpack_operand env operand rw = Inr (v, rw1)"
    and loop: "unpack_loop env rest (acc @ [v]) rw1 = Inr (u, rw')"
    by (auto split: sum.splits)
  have rest_sub: "set (listed_ops rest) \<subseteq> set U"
    using Cons.prems(4) by (cases operand) auto
  show ?case
  proof (cases operand)
    case (Many xs)
    with Cons.prems(4) have xs: "set xs \<subseteq> set U" by simp
    from unpack_operand_rewritten [OF step] Many have
      "rw1 = prepend_ops (rev xs) rw" by simp
    also have "\<dots> = rev (remdups (rev xs)) @ filter (\<lambda>z. z \<notin> set (rev xs)) rw"
      using prepend_ops_eq [OF inj Cons.prems(2), of "rev xs"] xs Cons.prems(3) by simp
    finally have rw1: "rw1 = rev (remdups (rev xs)) @ filter (\<lambda>z. z \<notin> set (rev xs)) rw" .
    have d1: "distinct rw1" using Cons.prems(2) by (auto simp: rw1)
    have s1: "set rw1 = set xs \<union> set rw" by (auto simp: rw1)
    then have sub1: "set rw1 \<subseteq> set U" using xs Cons.prems(3) by simp
    have n1: "no_forward_reference rw1"
      if "self_contained U xs" "no_forward_reference rw"
      using nfr_merge [OF that(1) xs Cons.prems(3) that(2)] by (simp add: rw1)
    from Cons.IH [OF loop d1 sub1 rest_sub] s1 n1 Many show ?thesis by auto
  next
    case (Value w)
    with unpack_operand_rewritten [OF step] have "rw1 = rw" by simp
    with Cons.IH [OF loop] Cons.prems rest_sub Value show ?thesis by auto
  next
    case (Single x)
    with unpack_operand_rewritten [OF step] have "rw1 = rw" by simp
    with Cons.IH [OF loop] Cons.prems rest_sub Single show ?thesis by auto
  qed
qed

lemma unpack_operands_rewritten:
  assumes inj: "inj_on op_id (set (listed_ops opnds))"
    and run: "unpack_operands opnds env = Inr (unpacked, rewritten)"
  shows "distinct rewritten \<and> set rewritten = set (listed_ops opnds)
         \<and> ((\<forall>xs. Many xs \<in> set opnds \<longrightarrow> self_contained (listed_ops opnds) xs)
              \<longrightarrow> no_forward_reference rewritten)"
  using unpack_loop_rewritten [OF inj, of _ opnds "[]" "[]" unpacked rewritten] run
  by (simp add: unpack_operands_def)

lemma not_referenced_if_constructed_before:
  "constructed_before n x \<Longrightarrow> n \<le> op_id y \<Longrightarrow> \<not> references x y"
  by (auto simp: constructed_before_def references_def list_all_iff list_ex_iff IOp_eq_def
           split: ISSAValue.splits)

lemma insertion_list:
  assumes inj: "inj_on op_id (set (listed_ops opnds))"
    and old: "\<forall>y \<in> set (listed_ops opnds). constructed_before n y"
    and run: "unpack_operands opnds env = Inr (unpacked, rewritten)"
    and new: "n \<le> op_id x"
  shows "distinct (map op_id (rewritten @ [x]))
         \<and> set rewritten = set (listed_ops opnds)
         \<and> ((\<forall>xs. Many xs \<in> set opnds \<longrightarrow> self_contained (listed_ops opnds) xs)
              \<longrightarrow> no_forward_reference (rewritten @ [x]))"
proof -
  note r = unpack_operands_rewritten [OF inj run]
  from r have set_eq: "set rewritten = set (listed_ops opnds)" by simp
  from r inj set_eq have "distinct (map op_id rewritten)"
    by (simp add: distinct_map)
  moreover have "op_id x \<notin> op_id ` set rewritten"
    using old new set_eq by (auto simp: constructed_before_def)
  ultimately have d: "distinct (map op_id (rewritten @ [x]))" by simp
  have "\<not> references y x" if "y \<in> set rewritten" for y
    using not_referenced_if_constructed_before [OF _ new, of y] old that set_eq by auto
  with r d set_eq show ?thesis by (auto simp: nfr_append)
qed

lemma first_occurrences_snoc:
  "first_occurrences (L @ [x])
     = (if x \<in> set L then first_occurrences L else first_occurrences L @ [x])"
  by (simp add: first_occurrences_def)

lemma set_first_occurrences [simp]: "set (first_occurrences L) = set L"
  by (simp add: first_occurrences_def)

lemma first_occurrences_distinct: "distinct L \<Longrightarrow> first_occurrences L = L"
  by (simp add: first_occurrences_def distinct_remdups_id)

lemma distinct_first_occurrences [simp]: "distinct (first_occurrences L)"
  by (simp add: first_occurrences_def)

lemma first_occurrences_append:
  "first_occurrences (A @ B)
     = first_occurrences A @ filter (\<lambda>z. z \<notin> set A) (first_occurrences B)"
proof (induction B rule: rev_induct)
  case Nil
  then show ?case by simp (simp add: first_occurrences_def)
next
  case (snoc x B)
  have "first_occurrences (A @ B @ [x]) = first_occurrences ((A @ B) @ [x])" by simp
  also have "\<dots> = (if x \<in> set (A @ B) then first_occurrences (A @ B)
                    else first_occurrences (A @ B) @ [x])"
    by (rule first_occurrences_snoc)
  finally show ?case using snoc by (auto simp: first_occurrences_snoc)
qed

lemma first_occurrences_absorb:
  "first_occurrences (A @ first_occurrences B) = first_occurrences (A @ B)"
  by (simp add: first_occurrences_append [of A] first_occurrences_distinct)

lemma resolve_operand_operand_value:
  "resolve_operand operand rw = Inr (v, rw') \<Longrightarrow> operand_value operand = Some v"
  by (cases operand) (auto simp: resolve_operand_def split: option.splits if_splits)

lemma unpack_loop_operand_values:
  assumes run: "unpack_loop env opnds [] [] = Inr (unpacked, rw')"
  shows "length unpacked = length opnds
         \<and> (\<forall>k < length opnds. \<exists>r. operand_value (opnds ! k) = Some r
               \<and> forward_rewrite_id (env_get env r) = Inr (unpacked ! k))"
proof -
  have "\<exists>r. operand_value (opnds ! k) = Some r
               \<and> forward_rewrite_id (env_get env r) = Inr (unpacked ! k)"
    if k: "k < length opnds" for k
  proof -
    from unpack_loop_nth [OF run k] obtain rwk rwk' where
      u: "unpack_operand env (opnds ! k) rwk = Inr (unpacked ! k, rwk')" by auto
    then obtain r rw1 where r: "resolve_operand (opnds ! k) rwk = Inr (r, rw1)"
      by (auto simp: unpack_operand_def split: sum.splits)
    from unpack_operand_value [OF u r] resolve_operand_operand_value [OF r]
    show ?thesis by blast
  qed
  with unpack_loop_prefix [OF run] show ?thesis by simp
qed

lemma unpack_loop_order:
  assumes inj: "inj_on op_id (set U)"
  shows "unpack_loop env opnds acc rw = Inr (u, rw') \<Longrightarrow> distinct rw \<Longrightarrow> set rw \<subseteq> set U
     \<Longrightarrow> set (listed_ops opnds) \<subseteq> set U
     \<Longrightarrow> rw' = first_occurrences (listed_ops (rev opnds) @ rw)"
proof (induction opnds arbitrary: acc rw)
  case Nil
  then show ?case by (simp add: first_occurrences_distinct)
next
  case (Cons operand rest)
  from Cons.prems(1) obtain v rw1 where step: "unpack_operand env operand rw = Inr (v, rw1)"
    and loop: "unpack_loop env rest (acc @ [v]) rw1 = Inr (u, rw')"
    by (auto split: sum.splits)
  from Cons.prems(4) have rest_sub: "set (listed_ops rest) \<subseteq> set U"
    by (cases operand) auto
  have lo: "listed_ops (xs @ ys) = listed_ops xs @ listed_ops ys" for xs ys :: "'a Operand list"
    by (induction xs rule: listed_ops.induct) auto
  show ?case
  proof (cases operand)
    case (Many xs)
    with Cons.prems(4) have xs: "set xs \<subseteq> set U" by simp
    from unpack_operand_rewritten [OF step] Many have "rw1 = prepend_ops (rev xs) rw" by simp
    also have "\<dots> = rev (remdups (rev xs)) @ filter (\<lambda>z. z \<notin> set (rev xs)) rw"
      using prepend_ops_eq [OF inj Cons.prems(2), of "rev xs"] xs Cons.prems(3) by simp
    also have "\<dots> = first_occurrences (xs @ rw)"
      using Cons.prems(2)
      by (simp add: first_occurrences_append first_occurrences_distinct)
         (simp add: first_occurrences_def)
    finally have rw1: "rw1 = first_occurrences (xs @ rw)" .
    have d1: "distinct rw1" by (simp add: rw1)
    have sub1: "set rw1 \<subseteq> set U" using xs Cons.prems(3) by (simp add: rw1)
    from Cons.IH [OF loop d1 sub1 rest_sub]
    have "rw' = first_occurrences (listed_ops (rev rest) @ first_occurrences (xs @ rw))"
      by (simp add: rw1)
    then show ?thesis by (simp add: first_occurrences_absorb Many lo)
  next
    case (Value w)
    with unpack_operand_rewritten [OF step] have "rw1 = rw" by simp
    with Cons.IH [OF loop] Cons.prems rest_sub Value show ?thesis by (simp add: lo)
  next
    case (Single x)
    with unpack_operand_rewritten [OF step] have "rw1 = rw" by simp
    with Cons.IH [OF loop] Cons.prems rest_sub Single show ?thesis by (simp add: lo)
  qed
qed

lemma unpack_operands_order:
  assumes inj: "inj_on op_id (set (listed_ops opnds))"
    and run: "unpack_operands opnds env = Inr (unpacked, rewritten)"
  shows "rewritten = first_occurrences (listed_ops (rev opnds))"
  using unpack_loop_order [OF inj, of _ opnds "[]" "[]" unpacked rewritten] run
  by (simp add: unpack_operands_def)

text \<open>
  Claim C7, as amended. Let the operations of the operands that are lists have distinct
  identities and have been constructed before the call. Whenever \<^verbatim>\<open>new_op\<close> or
  \<^verbatim>\<open>from_op\<close> returns, the returned list ends in the newly constructed operation; the
  operations before it are the operations of the operand lists, the list of the last
  operand first and every operation at its first place only, so they are exactly the
  operations of the operand lists and no identity occurs twice. The new operation has one
  operand per given operand: the value itself, the first result of a bare \<^verbatim>\<open>IOp\<close> (which is
  not added to the returned list) or the first result of the last operation of a list,
  looked up in \<^verbatim>\<open>env\<close> and with a \<^verbatim>\<open>RewriteId\<close> result forwarded. If every operand list holds,
  before each of its operations, every operation of the operand lists that this operation
  references, then no operation of the returned list references a result of an operation
  that stands after it.
\<close>

theorem insertion_list_of_new_op:
  assumes inj: "inj_on op_id (set (listed_ops opnds))"
    and old: "\<forall>y \<in> set (listed_ops opnds). constructed_before (next_id s) y"
  shows "(\<forall>result s'. new_op kind (Some opnds) res_types attrs succs regs s = Inr (result, s')
            \<longrightarrow> result \<noteq> [] \<and> op_id (last result) = Suc (next_id s)
                \<and> butlast result = first_occurrences (listed_ops (rev opnds))
                \<and> set (butlast result) = set (listed_ops opnds)
                \<and> distinct (map op_id result)
                \<and> length (operands (last result)) = length opnds
                \<and> (\<forall>k < length opnds. \<exists>r. operand_value (opnds ! k) = Some r
                      \<and> forward_rewrite_id r = Inr (operands (last result) ! k))
                \<and> ((\<forall>xs. Many xs \<in> set opnds \<longrightarrow> self_contained (listed_ops opnds) xs)
                     \<longrightarrow> no_forward_reference result))
       \<and> (\<forall>result env' s'.
              from_op old_op (Some opnds) res_types attrs' succs regs env s = Inr (result, env', s')
            \<longrightarrow> result \<noteq> [] \<and> next_id s \<le> op_id (last result)
                \<and> butlast result = first_occurrences (listed_ops (rev opnds))
                \<and> set (butlast result) = set (listed_ops opnds)
                \<and> distinct (map op_id result)
                \<and> length (operands (last result)) = length opnds
                \<and> (\<forall>k < length opnds. \<exists>r. operand_value (opnds ! k) = Some r
                      \<and> forward_rewrite_id
                           (env_get (case env of None \<Rightarrow> Map.empty | Some e \<Rightarrow> e) r)
                         = Inr (operands (last result) ! k))
                \<and> ((\<forall>xs. Many xs \<in> set opnds \<longrightarrow> self_contained (listed_ops opnds) xs)
                     \<longrightarrow> no_forward_reference result))"
proof -
  have built: "result \<noteq> [] \<and> next_id s \<le> op_id (last result)
                \<and> butlast result = first_occurrences (listed_ops (rev opnds))
                \<and> set (butlast result) = set (listed_ops opnds)
                \<and> distinct (map op_id result)
                \<and> length (operands (last result)) = length opnds
                \<and> (\<forall>k < length opnds. \<exists>r. operand_value (opnds ! k) = Some r
                      \<and> forward_rewrite_id
                           (env_get (case e of None \<Rightarrow> Map.empty | Some e \<Rightarrow> e) r)
                         = Inr (operands (last result) ! k))
                \<and> ((\<forall>xs. Many xs \<in> set opnds \<longrightarrow> self_contained (listed_ops opnds) xs)
                     \<longrightarrow> no_forward_reference result)"
    if u: "unpack_operands opnds e = Inr (unpacked, rewritten)"
      and res: "result = rewritten @ [x]" and new: "next_id s \<le> op_id x"
      and x: "operands x = unpacked"
    for result unpacked rewritten x e
  proof -
    note l = insertion_list [OF inj old u new]
    note order = unpack_operands_order [OF inj u]
    from u have loop: "unpack_loop (case e of None \<Rightarrow> Map.empty | Some e \<Rightarrow> e) opnds [] []
                         = Inr (unpacked, rewritten)"
      by (simp add: unpack_operands_def)
    note vals = unpack_loop_operand_values [OF loop]
    from l have "result \<noteq> []" "next_id s \<le> op_id (last result)"
      "set (butlast result) = set (listed_ops opnds)" "distinct (map op_id result)"
      "(\<forall>xs. Many xs \<in> set opnds \<longrightarrow> self_contained (listed_ops opnds) xs)
         \<longrightarrow> no_forward_reference result"
      using new by (auto simp: res)
    moreover from order have "butlast result = first_occurrences (listed_ops (rev opnds))"
      by (simp add: res)
    moreover from vals have "length (operands (last result)) = length opnds"
      "\<forall>k < length opnds. \<exists>r. operand_value (opnds ! k) = Some r
                      \<and> forward_rewrite_id
                           (env_get (case e of None \<Rightarrow> Map.empty | Some e \<Rightarrow> e) r)
                         = Inr (operands (last result) ! k)"
      by (simp_all add: res x)
    ultimately show ?thesis by blast
  qed
  have a: "result \<noteq> [] \<and> op_id (last result) = Suc (next_id s)
                \<and> butlast result = first_occurrences (listed_ops (rev opnds))
                \<and> set (butlast result) = set (listed_ops opnds)
                \<and> distinct (map op_id result)
                \<and> length (operands (last result)) = length opnds
                \<and> (\<forall>k < length opnds. \<exists>r. operand_value (opnds ! k) = Some r
                      \<and> forward_rewrite_id r = Inr (operands (last result) ! k))
                \<and> ((\<forall>xs. Many xs \<in> set opnds \<longrightarrow> self_contained (listed_ops opnds) xs)
                     \<longrightarrow> no_forward_reference result)"
    if run: "new_op kind (Some opnds) res_types attrs succs regs s = Inr (result, s')"
    for result s'
  proof -
    from run obtain unpacked rewritten x where
      u: "unpack_operands opnds None = Inr (unpacked, rewritten)"
      and res: "result = rewritten @ [x]" and x: "op_id x = Suc (next_id s)"
      and ops: "operands x = unpacked"
      by (auto simp: new_op_def IOp_get_def IOp_init_def split: sum.splits)
    from x have new: "next_id s \<le> op_id x" by simp
    have lx: "op_id (last result) = Suc (next_id s)" using x res by simp
    have eg: "env_get Map.empty r = r" for r :: "'a ISSAValue" by (simp add: env_get_def)
    note B = built [OF u res new ops, unfolded option.case eg]
    from B lx show ?thesis by blast
  qed
  have b: "result \<noteq> [] \<and> next_id s \<le> op_id (last result)
                \<and> butlast result = first_occurrences (listed_ops (rev opnds))
                \<and> set (butlast result) = set (listed_ops opnds)
                \<and> distinct (map op_id result)
                \<and> length (operands (last result)) = length opnds
                \<and> (\<forall>k < length opnds. \<exists>r. operand_value (opnds ! k) = Some r
                      \<and> forward_rewrite_id
                           (env_get (case env of None \<Rightarrow> Map.empty | Some e \<Rightarrow> e) r)
                         = Inr (operands (last result) ! k))
                \<and> ((\<forall>xs. Many xs \<in> set opnds \<longrightarrow> self_contained (listed_ops opnds) xs)
                     \<longrightarrow> no_forward_reference result)"
    if run: "from_op old_op (Some opnds) res_types attrs' succs regs env s = Inr (result, env', s')"
    for result env' s'
  proof -
    from run obtain unpacked rewritten x where
      u: "unpack_operands opnds env = Inr (unpacked, rewritten)"
      and res: "result = rewritten @ [x]" and new: "next_id s \<le> op_id x"
      and ops: "operands x = unpacked"
      by (auto simp: from_op_def IOp_get_def IOp_init_def Let_def split: sum.splits option.splits)
    from built [OF u res new ops] show ?thesis .
  qed
  from a b show ?thesis by blast
qed

theorem insertion_list_of_new_op_witness:
  "inj_on op_id (set (listed_ops [Many [example_constant], Many [example_constant, example_negate]]))
   \<and> list_all (constructed_before 4) (listed_ops [Many [example_constant], Many [example_constant, example_negate]])
   \<and> self_contained (listed_ops [Many [example_constant], Many [example_constant, example_negate]]) [example_constant]
   \<and> self_contained (listed_ops [Many [example_constant], Many [example_constant, example_negate]]) [example_constant, example_negate]
   \<and> new_op (OpClass ''arith.addi'') (Some [Many [example_constant], Many [example_constant, example_negate]]) (Some [''i32''])
         None None None \<lparr>next_id = 4, arg_block = Map.empty\<rparr>
       = Inr ([example_constant, example_negate,
               IOp 5 (OpData 4 ''arith.addi'' (OpClass ''arith.addi'') [])
                 [IResult ''i32'' example_constant 0, IResult ''i32'' example_negate 0] [''i32''] [] []],
              \<lparr>next_id = 6, arg_block = Map.empty\<rparr>)
   \<and> first_occurrences (listed_ops (rev [Many [example_constant], Many [example_constant, example_negate]]))
       = [example_constant, example_negate]
   \<and> operand_value (Many [example_constant]) = Some (IResult ''i32'' example_constant 0)
   \<and> operand_value (Many [example_constant, example_negate]) = Some (IResult ''i32'' example_negate 0)
   \<and> no_forward_reference
        [example_constant, example_negate,
         IOp 5 (OpData 4 ''arith.addi'' (OpClass ''arith.addi'') [])
           [IResult ''i32'' example_constant 0, IResult ''i32'' example_negate 0] [''i32''] [] []]"
  using insertion_list_of_new_op [where opnds = "[Many [example_constant], Many [example_constant, example_negate]]"
      and s = "\<lparr>next_id = 4, arg_block = Map.empty\<rparr>" and kind = "OpClass ''arith.addi''"
      and res_types = "Some [''i32'']" and attrs = None and succs = None and regs = None]
  by (simp add: example_constant_def example_negate_def constructed_before_def self_contained_def references_def
        IOp_eq_def less_Suc_eq new_op_def unpack_operands_def unpack_operand_def
        resolve_operand_def forward_rewrite_id_def env_get_def IOp_result_def IOp_results_def
        IOp_op_type_def IOp_get_def IOp_init_def first_occurrences_def)

text \<open>
  Claim C7 as stated fails. First, a constant is built with \<^verbatim>\<open>new_op\<close> and passed, not yet
  inserted, as a bare \<^verbatim>\<open>IOp\<close> to a second \<^verbatim>\<open>new_op\<close>: the returned list holds the second
  operation only. Second, with the operand lists \<open>[a, b]\<close> and \<open>[b]\<close>, where \<open>b\<close>
  references \<open>a\<close>, the returned list starts \<open>[b, a]\<close>: \<open>b\<close> references a result of
  an operation that stands after it.
\<close>

theorem insertion_list_counterexample:
  "(case new_op (OpClass ''arith.constant'') None (Some [''i32'']) None None None
           \<lparr>next_id = 0, arg_block = Map.empty\<rparr> of
      Inl e \<Rightarrow> False
    | Inr (built, s1) \<Rightarrow>
        (case new_op (OpClass ''test.use'') (Some [Single (last built)]) None None None None s1 of
           Inl e \<Rightarrow> False
         | Inr (result, s2) \<Rightarrow>
             built = [IOp 1 (OpData 0 ''arith.constant'' (OpClass ''arith.constant'') [])
                        [] [''i32''] [] []]
             \<and> result = [IOp 3 (OpData 2 ''test.use'' (OpClass ''test.use'') [])
                           [IResult ''i32'' (last built) 0] [] [] []]
             \<and> \<not> list_ex (IOp_eq (last built)) result))
   \<and> (case new_op (OpClass ''arith.addi'') (Some [Many [example_constant, example_negate], Many [example_negate]])
           (Some [''i32'']) None None None \<lparr>next_id = 4, arg_block = Map.empty\<rparr> of
      Inl e \<Rightarrow> False
    | Inr (result, s1) \<Rightarrow>
        butlast result = [example_negate, example_constant] \<and> references example_negate example_constant
        \<and> \<not> no_forward_reference result)"
  by (simp add: example_constant_def example_negate_def references_def
        IOp_eq_def new_op_def unpack_operands_def unpack_operand_def
        resolve_operand_def forward_rewrite_id_def env_get_def IOp_result_def IOp_results_def
        IOp_op_type_def IOp_get_def IOp_init_def)

section \<open>Conversion between the mutable and the immutable IR: properties\<close>

lemma mutable_operands_eq:
  "mutable_operands nm vm opnds st =
     (map (placeholder_for vm) opnds, st\<lparr>stdout := stdout st @ printed_errors nm vm opnds\<rparr>)"
  by (induction opnds arbitrary: st) (auto simp: placeholder_for_def printed_errors_def split: option.splits)

lemma mutable_successors_missing:
  "\<exists>b \<in> set succs. bm (block_id b) = None \<Longrightarrow>
     mutable_successors bm succs = Inl (Exception ''Block used before definition'')"
proof (induction succs)
  case Nil
  then show ?case by simp
next
  case (Cons a succs)
  show ?case
  proof (cases "bm (block_id a)")
    case None
    then show ?thesis by simp
  next
    case (Some m)
    with Cons.prems have "\<exists>b \<in> set succs. bm (block_id b) = None" by auto
    from Cons.IH [OF this] Some show ?thesis by simp
  qed
qed

lemma mutable_successors_resolved:
  "\<forall>b \<in> set succs. bm (block_id b) \<noteq> None \<Longrightarrow>
     mutable_successors bm succs = Inr (map (\<lambda>b. the (bm (block_id b))) succs)"
  by (induction succs) (auto split: option.splits sum.splits)

text \<open>
  Claim C4, as amended. A successor without an entry in \<^verbatim>\<open>block_mapping\<close> makes
  \<^verbatim>\<open>IOp.get_mutable_copy\<close> raise \<^verbatim>\<open>Exception("Block used before definition")\<close>. An
  operand without an entry in \<^verbatim>\<open>value_mapping\<close> does not: when the successors resolve and
  the regions convert, the call returns the new operation, in which each such operand is
  the placeholder \<^verbatim>\<open>OpResult(operand.typ, None, 0)\<close>, and one line per such operand has
  been printed.
\<close>

theorem get_mutable_copy_unresolved:
  "((\<exists>b \<in> set (successors x). bm (block_id b) = None)
      \<longrightarrow> IOp_get_mutable_copy x vm bm st = Inl (Exception ''Block used before definition''))
   \<and> ((\<forall>b \<in> set (successors x). bm (block_id b) \<noteq> None)
        \<and> mutable_regions (regions x) vm bm
             (st\<lparr>stdout := stdout st @ printed_errors (IOp_name x) vm (operands x)\<rparr>)
            = Inr (regs, vm', bm', st')
      \<longrightarrow> (\<exists>y vm''. IOp_get_mutable_copy x vm bm st
                     = Inr (y, vm'', bm', st'\<lparr>m_next := Suc (m_next st')\<rparr>)
            \<and> m_operands y = map (placeholder_for vm) (operands x)
            \<and> m_successors y = map (\<lambda>b. the (bm (block_id b))) (successors x)
            \<and> m_regions y = regs
            \<and> operation_type y = IOp_op_type x
            \<and> m_attributes y = IOp_attributes x
            \<and> m_result_types y = result_types x))"
proof (cases x)
  case (IOp i od opnds tys succs rs)
  show ?thesis
    unfolding IOp
    by (auto simp: mutable_operands_eq mutable_successors_missing mutable_successors_resolved
          Operation_create_def IOp_name_def IOp_op_type_def IOp_attributes_def
        split: sum.splits prod.splits)
qed

theorem get_mutable_copy_unresolved_witness:
  "IOp_get_mutable_copy
      (IOp 1 (OpData 0 ''cf.br'' (OpClass ''cf.br'') []) [] [] [IBlock 7 [] []] [] :: string IOp)
      Map.empty Map.empty \<lparr>m_next = 100, stdout = []\<rparr>
     = Inl (Exception ''Block used before definition'')
   \<and> mutable_regions ([] :: string IRegion list) Map.empty [7 \<mapsto> 50]
        \<lparr>m_next = 100, stdout = [''ERROR: op test.use uses SSAValue before definition'']\<rparr>
     = Inr ([], Map.empty, [7 \<mapsto> 50],
            \<lparr>m_next = 100, stdout = [''ERROR: op test.use uses SSAValue before definition'']\<rparr>)
   \<and> (case IOp_get_mutable_copy
            (IOp 1 (OpData 0 ''test.use'' (OpClass ''test.use'') [])
               [IArg (IBlockArg 5 ''i32'' 0)] [] [IBlock 7 [] []] [])
            Map.empty [7 \<mapsto> 50] \<lparr>m_next = 100, stdout = []\<rparr> of
         Inl e \<Rightarrow> False
       | Inr (y, vm2, bm2, st') \<Rightarrow>
           y = Operation 100 ''test.use'' (OpClass ''test.use'') [OpResult ''i32'' None 0] [] [] [50] []
           \<and> st' = \<lparr>m_next = 101,
                      stdout = [''ERROR: op test.use uses SSAValue before definition'']\<rparr>)"
  using
    get_mutable_copy_unresolved [where
      x = "IOp 1 (OpData 0 ''cf.br'' (OpClass ''cf.br'') []) [] [] [IBlock 7 [] []] [] :: string IOp"
      and bm = Map.empty and vm = Map.empty and st = "\<lparr>m_next = 100, stdout = []\<rparr>"]
    get_mutable_copy_unresolved [where
      x = "IOp 1 (OpData 0 ''test.use'' (OpClass ''test.use'') [])
               [IArg (IBlockArg 5 ''i32'' 0)] [] [IBlock 7 [] []] []"
      and bm = "[7 \<mapsto> 50]" and vm = Map.empty and st = "\<lparr>m_next = 100, stdout = []\<rparr>"
      and regs = "[]" and vm' = Map.empty and bm' = "[7 \<mapsto> 50]"
      and st' = "\<lparr>m_next = 100, stdout = [''ERROR: op test.use uses SSAValue before definition'']\<rparr>"]
  by (simp add: Operation_create_def IOp_name_def printed_errors_def)

text \<open>
  Claim C4 as stated fails: an operation whose only operand has no entry in the empty
  \<^verbatim>\<open>value_mapping\<close> is rebuilt without an error, with the placeholder as its operand.
\<close>

theorem get_mutable_copy_placeholder_counterexample:
  "(case IOp_get_mutable_copy
            (IOp 1 (OpData 0 ''test.use'' (OpClass ''test.use'') [])
               [IArg (IBlockArg 5 ''i32'' 0)] [] [] [])
            Map.empty Map.empty \<lparr>m_next = 100, stdout = []\<rparr> of
         Inl e \<Rightarrow> False
       | Inr (y, vm2, bm2, st') \<Rightarrow>
           y = Operation 100 ''test.use'' (OpClass ''test.use'') [OpResult ''i32'' None 0] [] [] [] []
           \<and> stdout st' = [''ERROR: op test.use uses SSAValue before definition''])"
  by (simp add: Operation_create_def)

text \<open>
  Claim C1. The round trip does not yield a module for \<open>branch_module\<close>.
  \<^verbatim>\<open>IOp.from_mutable\<close> converts the successor of the branch on demand into one immutable
  block (number 0 below) and the same block, as a block of the region, into another
  (number 4); \<^verbatim>\<open>get_mutable_copy\<close> then finds no entry for the first in
  \<^verbatim>\<open>block_mapping\<close> and raises.
\<close>

theorem round_trip_fails_on_successor:
  "get_immutable_copy 10 branch_module \<lparr>next_id = 0, arg_block = Map.empty\<rparr>
     = Inr (IOp 7 (OpData 6 ''builtin.module'' (OpClass ''builtin.module'') []) [] [] []
              [IRegion 5
                 [IBlock 3 [] [IOp 2 (OpData 1 ''cf.br'' (OpClass ''cf.br'') []) [] []
                                  [IBlock 0 [] []] []],
                  IBlock 4 [] []]])
   \<and> round_trip 10 branch_module \<lparr>next_id = 0, arg_block = Map.empty\<rparr>
         \<lparr>m_next = 100, stdout = []\<rparr>
     = Inl (Exception ''Block used before definition'')"
  by code_simp

section \<open>Rebuilding a block: properties of \<^verbatim>\<open>from_iblock\<close>\<close>

text \<open>
  The equation of \<^verbatim>\<open>from_iblock\<close> is applied where a proof asks for it, not by the
  simplifier on its own.
\<close>

declare from_iblock.simps [simp del]

subsection \<open>The loops until a first substitution is required\<close>

lemma mint_args_props:
  "mint_args as idx env s = (news, env', s') \<Longrightarrow>
     map arg_typ news = map arg_typ as
     \<and> map arg_index news = [idx..<idx + length as]
     \<and> map arg_id news = [next_id s..<next_id s + length as]
     \<and> next_id s' = next_id s + length as
     \<and> arg_block s' = arg_block s
     \<and> dom env' = dom env \<union> (\<lambda>a. KArg (arg_id a)) ` set as"
proof (induction as arbitrary: idx env s news env' s')
  case Nil
  then show ?case by simp
next
  case (Cons a as)
  obtain ns e1 s1 where rec: "mint_args as (Suc idx) (env(KArg (arg_id a) \<mapsto> IArg (IBlockArg (next_id s) (arg_typ a) idx)))
        (s\<lparr>next_id := Suc (next_id s)\<rparr>) = (ns, e1, s1)"
    by (metis prod_cases3)
  with Cons.prems have news: "news = IBlockArg (next_id s) (arg_typ a) idx # ns"
    and e: "env' = e1" and s: "s' = s1"
    by (simp_all add: Let_def)
  from Cons.IH [OF rec] news e s show ?case
    by (auto simp: upt_rec [of idx] upt_rec [of "next_id s"])
qed

lemma needs_substitution_IOp:
  "needs_substitution env (IOp i od opnds tys succs regs) \<longleftrightarrow>
     subst_necessary env (IOp i od opnds tys succs regs)
     \<or> (\<exists>r \<in> set regs. \<exists>b \<in> set (blocks r). block_substitution_required env b)"
proof -
  have "set (IRegion_walk r) = (\<Union>b \<in> set (blocks r). set (IBlock_walk b))" for r :: "'a IRegion"
    by (cases r) simp
  then show ?thesis
    by (auto simp: needs_substitution_def block_substitution_required_def list_ex_iff)
qed

lemma rebuild_blocks_flag:
  "rebuild_blocks bs env s = Inr (c, bs', env', s') \<Longrightarrow>
     (c \<longleftrightarrow> (\<exists>b \<in> set bs. block_substitution_required env b))
     \<and> (\<not> c \<longrightarrow> bs' = bs \<and> env' = env \<and> s' = s)"
proof (induction bs arbitrary: c bs' env' s')
  case Nil
  then show ?case by simp
next
  case (Cons b bs)
  obtain i as os where b: "b = IBlock i as os" by (cases b)
  show ?case
  proof (cases "block_substitution_required env b")
    case True
    with Cons.prems b show ?thesis
      by (auto split: sum.splits)
  next
    case False
    with Cons.prems b obtain c' rest' where
      rest: "rebuild_blocks bs env s = Inr (c', rest', env', s')"
      and "c = c'" "bs' = b # rest'"
      by (auto split: sum.splits)
    with Cons.IH [OF rest] False show ?thesis by auto
  qed
qed

lemma rebuild_regions_flag:
  "rebuild_regions rs env s = Inr (c, rs', env', s') \<Longrightarrow>
     (c \<longleftrightarrow> (\<exists>r \<in> set rs. \<exists>b \<in> set (blocks r). block_substitution_required env b))
     \<and> (\<not> c \<longrightarrow> rs' = rs \<and> env' = env \<and> s' = s)"
proof (induction rs arbitrary: c rs' env' s')
  case Nil
  then show ?case by simp
next
  case (Cons r rs)
  obtain i blks where r: "r = IRegion i blks" by (cases r)
  from Cons.prems r obtain cr nb e1 s1 where
    blocks: "rebuild_blocks blks env s = Inr (cr, nb, e1, s1)"
    by (auto split: sum.splits)
  note f = rebuild_blocks_flag [OF blocks]
  show ?case
  proof (cases cr)
    case True
    with Cons.prems r blocks f show ?thesis
      by (auto split: sum.splits prod.splits)
  next
    case False
    with f have same: "nb = blks" "e1 = env" "s1 = s" by simp_all
    with Cons.prems r blocks False obtain c' rest' where
      rest: "rebuild_regions rs env s = Inr (c', rest', env', s')"
      and "c = c'" "rs' = r # rest'"
      by (auto split: sum.splits)
    with Cons.IH [OF rest] f False r show ?thesis by auto
  qed
qed

lemma rebuild_blocks_untouched:
  "\<forall>b \<in> set bs. \<not> block_substitution_required env b \<Longrightarrow>
     rebuild_blocks bs env s = Inr (False, bs, env, s)"
proof (induction bs)
  case Nil
  then show ?case by simp
next
  case (Cons b bs)
  then show ?case by (cases b) simp
qed

lemma rebuild_regions_untouched:
  "\<forall>r \<in> set rs. \<forall>b \<in> set (blocks r). \<not> block_substitution_required env b \<Longrightarrow>
     rebuild_regions rs env s = Inr (False, rs, env, s)"
proof (induction rs)
  case Nil
  then show ?case by simp
next
  case (Cons r rs)
  then show ?case by (cases r) (simp add: rebuild_blocks_untouched)
qed

lemma substitute_if_required_untouched:
  "\<not> needs_substitution env x \<Longrightarrow> substitute_if_required x env s = Inr (x, env, s)"
  by (cases x) (simp add: needs_substitution_IOp rebuild_regions_untouched)

subsection \<open>The call of \<^verbatim>\<open>from_op\<close> that \<^verbatim>\<open>substitute_if_required\<close> makes\<close>

lemma unpack_loop_values:
  "unpack_loop env (map Value vs) acc rw = Inr (u, rw') \<Longrightarrow>
     rw' = rw \<and> (\<exists>new. u = acc @ new
        \<and> list_all2 (\<lambda>v v'. forward_rewrite_id (env_get env v) = Inr v') vs new)"
proof (induction vs arbitrary: acc)
  case Nil
  then show ?case by simp
next
  case (Cons v vs)
  from Cons.prems obtain v' where fwd: "forward_rewrite_id (env_get env v) = Inr v'"
    and loop: "unpack_loop env (map Value vs) (acc @ [v']) rw = Inr (u, rw')"
    by (auto simp: unpack_operand_def resolve_operand_def split: sum.splits)
  from Cons.IH [OF loop] fwd show ?case by auto
qed

lemma record_results_dom:
  "record_results olds news env = Inr env' \<Longrightarrow> dom env \<subseteq> dom env'"
  by (induction olds news env rule: record_results.induct) (auto split: if_splits)


lemma from_op_rebuild:
  assumes "from_op x (Some (map Value vs)) None None None (Some regs) (Some env1) s1
             = Inr (res, env2, s2)"
  shows "\<exists>new_operands e'.
           res = [IOp (next_id s1) (op_data x) new_operands (result_types x) (successors x) regs]
           \<and> env2 = Some e' \<and> dom env1 \<subseteq> dom e'
           \<and> s2 = s1\<lparr>next_id := Suc (next_id s1)\<rparr>
           \<and> list_all2 (\<lambda>v v'. forward_rewrite_id (env_get env1 v) = Inr v') vs new_operands"
proof -
  from assms obtain u rw where
    un: "unpack_loop env1 (map Value vs) [] [] = Inr (u, rw)"
    by (auto simp: from_op_def unpack_operands_def Let_def split: sum.splits)
  from unpack_loop_values [OF un] have rw: "rw = []"
    and l: "list_all2 (\<lambda>v v'. forward_rewrite_id (env_get env1 v) = Inr v') vs u" by auto
  from assms un rw l show ?thesis
    by (auto simp: from_op_def unpack_operands_def IOp_init_def Let_def
             split: sum.splits dest: record_results_dom)
qed


subsection \<open>What a run that returns went through\<close>

lemma from_iblock_inv:
  assumes "from_iblock os b env s = Inr (b', env', s')"
  obtains block_args env0 s0 os' s2 where
    "mint_args (args b) 0 env s = (block_args, env0, s0)"
    "substitute_ops os env0 s0 = Inr (os', env', s2)"
    "b' = IBlock (next_id s2) block_args os'"
    "next_id s' = Suc (next_id s2)"
proof -
  obtain block_args env0 s0 where m: "mint_args (args b) 0 env s = (block_args, env0, s0)"
    by (metis prod_cases3)
  with assms obtain res where so: "substitute_ops os env0 s0 = Inr res"
    by (cases "substitute_ops os env0 s0") (simp_all add: from_iblock.simps)
  obtain os' e2 s2 where res: "res = (os', e2, s2)" by (metis prod_cases3)
  from assms m so res have "e2 = env'" "b' = IBlock (next_id s2) block_args os'"
    "next_id s' = Suc (next_id s2)"
    by (auto simp: from_iblock.simps IBlock_init_def Let_def)
  with that [OF m] so res show thesis by simp
qed

lemma substitute_ops_Cons_inv:
  assumes "substitute_ops (x # xs) env s = Inr (xs', env', s')"
  obtains x' env1 s1 rest' where
    "substitute_if_required x env s = Inr (x', env1, s1)"
    "substitute_ops xs env1 s1 = Inr (rest', env', s')"
    "xs' = x' # rest'"
  using assms by (auto split: sum.splits)

lemma rebuild_blocks_Cons_inv:
  assumes "rebuild_blocks (b # bs) env s = Inr (c, bs', env', s')"
  obtains nb e1 s1 cr rest' where
    "if block_substitution_required env b then from_iblock (ops b) b env s = Inr (nb, e1, s1)
     else nb = b \<and> e1 = env \<and> s1 = s"
    "rebuild_blocks bs e1 s1 = Inr (cr, rest', env', s')"
    "bs' = nb # rest'"
    "c = (block_substitution_required env b \<or> cr)"
proof -
  obtain i as os where b: "b = IBlock i as os" by (cases b)
  show thesis
  proof (cases "block_substitution_required env b")
    case True
    with assms b obtain head where f: "from_iblock os b env s = Inr head"
      by (cases "from_iblock os b env s") simp_all
    obtain nb e1 s1 where head: "head = (nb, e1, s1)" by (metis prod_cases3)
    with assms b True f obtain tl where r: "rebuild_blocks bs e1 s1 = Inr tl"
      by (cases "rebuild_blocks bs e1 s1") simp_all
    obtain cr rest' e2 s2 where tl: "tl = (cr, rest', e2, s2)" by (metis prod_cases4)
    from assms b True f head r tl have "e2 = env'" "s2 = s'" "bs' = nb # rest'" "c = (True \<or> cr)"
      by auto
    with that [of nb e1 s1 cr rest'] True f head r tl b show thesis by simp
  next
    case False
    with assms b obtain tl where r: "rebuild_blocks bs env s = Inr tl"
      by (cases "rebuild_blocks bs env s") simp_all
    obtain cr rest' e2 s2 where tl: "tl = (cr, rest', e2, s2)" by (metis prod_cases4)
    from assms b False r tl have "e2 = env'" "s2 = s'" "bs' = b # rest'" "c = cr"
      by auto
    with that [of b env s cr rest'] False r tl show thesis by simp
  qed
qed

lemma rebuild_regions_Cons_inv:
  assumes "rebuild_regions (r # rs) env s = Inr (c, rs', env', s')"
  obtains cr nb e1 s1 nr s2 cr' rest' where
    "rebuild_blocks (blocks r) env s = Inr (cr, nb, e1, s1)"
    "(nr, s2) = (if cr then IRegion_init nb s1 else (r, s1))"
    "rebuild_regions rs e1 s2 = Inr (cr', rest', env', s')"
    "rs' = nr # rest'"
    "c = (cr \<or> cr')"
proof -
  obtain i blks where r: "r = IRegion i blks" by (cases r)
  from assms r obtain head where a: "rebuild_blocks blks env s = Inr head"
    by (cases "rebuild_blocks blks env s") simp_all
  obtain cr nb e1 s1 where head: "head = (cr, nb, e1, s1)" by (metis prod_cases4)
  obtain nr s2 where nr: "(if cr then IRegion_init nb s1 else (IRegion i blks, s1)) = (nr, s2)"
    by (metis surj_pair)
  from assms r a head nr obtain tl where t: "rebuild_regions rs e1 s2 = Inr tl"
    by (cases "rebuild_regions rs e1 s2") simp_all
  obtain cr' rest' e2 s3 where tl: "tl = (cr', rest', e2, s3)" by (metis prod_cases4)
  from assms r a head nr t tl have out: "e2 = env'" "s3 = s'" "rs' = nr # rest'" "c = (cr \<or> cr')"
    by auto
  from nr have "(nr, s2) = (if cr then IRegion_init nb s1 else (r, s1))"
    by (cases cr) (simp_all add: r)
  with that [of cr nb e1 s1 nr s2 cr' rest'] a head t tl out r show thesis by simp
qed

lemma substitute_if_required_cases:
  assumes run: "substitute_if_required x env s = Inr (x', env', s')"
  obtains (same) "\<not> needs_substitution env x" "x' = x" "env' = env" "s' = s"
  | (rebuilt) c regs e1 s1 new_operands where
      "needs_substitution env x"
      "rebuild_regions (regions x) env s = Inr (c, regs, e1, s1)"
      "x' = IOp (next_id s1) (op_data x) new_operands (result_types x) (successors x) regs"
      "list_all2 (\<lambda>v v'. forward_rewrite_id (env_get e1 (env_get e1 v)) = Inr v')
         (operands x) new_operands"
      "dom e1 \<subseteq> dom env'" "s' = s1\<lparr>next_id := Suc (next_id s1)\<rparr>"
proof (cases "needs_substitution env x")
  case False
  with substitute_if_required_untouched [OF False, of s] run same show ?thesis by simp
next
  case True
  obtain i od opnds tys succs rs where x: "x = IOp i od opnds tys succs rs" by (cases x)
  from run x obtain c regs e1 s1 where
    rr: "rebuild_regions rs env s = Inr (c, regs, e1, s1)"
    by (auto split: sum.splits)
  note f = rebuild_regions_flag [OF rr]
  have cond: "c \<or> subst_necessary e1 x"
    using True f unfolding x needs_substitution_IOp by auto
  with run x rr obtain res env2 s2 where
    fo: "from_op x (Some (map Value (map (env_get e1) opnds))) None None None (Some regs) (Some e1) s1
           = Inr (res, env2, s2)"
    and out: "length res = 1" "x' = last res" "env' = (case env2 of Some e \<Rightarrow> e | None \<Rightarrow> e1)" "s' = s2"
    by (auto simp: comp_def split: sum.splits if_splits)
  from from_op_rebuild [OF fo] obtain new_operands e' where
    res: "res = [IOp (next_id s1) (op_data x) new_operands (result_types x) (successors x) regs]"
    and e: "env2 = Some e'" "dom e1 \<subseteq> dom e'" and s2: "s2 = s1\<lparr>next_id := Suc (next_id s1)\<rparr>"
    and l: "list_all2 (\<lambda>v v'. forward_rewrite_id (env_get e1 v) = Inr v') (map (env_get e1) opnds) new_operands"
    by auto
  from l have "list_all2 (\<lambda>v v'. forward_rewrite_id (env_get e1 (env_get e1 v)) = Inr v')
         (operands x) new_operands"
    by (simp add: x list_all2_map1)
  with rebuilt [OF True _ _ this] rr res e s2 out x show ?thesis by simp
qed

text \<open>
  \<^verbatim>\<open>env\<close> only gains keys, and identities are only handed out, never taken back.
\<close>

lemma rebuild_monotone:
  fixes os :: "'a IOp list" and b :: "'a IBlock" and env :: "'a Env" and s :: ir_state
    and xs :: "'a IOp list" and x :: "'a IOp" and rs :: "'a IRegion list" and bs :: "'a IBlock list"
  shows "from_iblock os b env s = Inr (b', env', s') \<Longrightarrow> dom env \<subseteq> dom env' \<and> next_id s \<le> next_id s'"
    and "substitute_ops xs env s = Inr (xs', env', s') \<Longrightarrow> dom env \<subseteq> dom env' \<and> next_id s \<le> next_id s'"
    and "substitute_if_required x env s = Inr (x', env', s') \<Longrightarrow> dom env \<subseteq> dom env' \<and> next_id s \<le> next_id s'"
    and "rebuild_regions rs env s = Inr (c, rs', env', s') \<Longrightarrow> dom env \<subseteq> dom env' \<and> next_id s \<le> next_id s'"
    and "rebuild_blocks bs env s = Inr (c, bs', env', s') \<Longrightarrow> dom env \<subseteq> dom env' \<and> next_id s \<le> next_id s'"
proof (induction os b env s and xs env s and x env s and rs env s and bs env s
       arbitrary: b' env' s' and xs' env' s' and x' env' s' and c rs' env' s' and c bs' env' s'
       rule: from_iblock_substitute_ops_substitute_if_required_rebuild_regions_rebuild_blocks.induct)
  case (1 os old_block env s)
  from "1.prems" obtain block_args env0 s0 os' s2 where
    m: "mint_args (args old_block) 0 env s = (block_args, env0, s0)"
    and so: "substitute_ops os env0 s0 = Inr (os', env', s2)"
    and "b' = IBlock (next_id s2) block_args os'"
    and s': "next_id s' = Suc (next_id s2)"
    by (rule from_iblock_inv)
  from "1.IH" [OF m [symmetric] refl so] mint_args_props [OF m] s' show ?case by auto
next
  case (2 env s)
  then show ?case by simp
next
  case (3 x xs env s)
  from "3.prems" obtain x' env1 s1 rest' where
    a: "substitute_if_required x env s = Inr (x', env1, s1)"
    and b: "substitute_ops xs env1 s1 = Inr (rest', env', s')"
    and "xs' = x' # rest'"
    by (rule substitute_ops_Cons_inv)
  from "3.IH"(1) [OF a] "3.IH"(2) [OF a refl refl b] show ?case by (meson order_trans)
next
  case (4 i od opnds tys succs regs env s)
  from "4.prems" show ?case
  proof (cases rule: substitute_if_required_cases)
    case same
    then show ?thesis by simp
  next
    case (rebuilt c rs e1 s1 new_operands)
    from "4.IH" [of c rs e1 s1] rebuilt(2) have "dom env \<subseteq> dom e1" "next_id s \<le> next_id s1"
      by simp_all
    moreover from this(1) rebuilt(5) have "dom env \<subseteq> dom env'" by (rule order_trans)
    ultimately show ?thesis using rebuilt(6) by simp
  qed
next
  case (5 env s)
  then show ?case by simp
next
  case (6 i blks rest env s)
  from "6.prems" obtain cr nb e1 s1 nr s2 cr' rest' where
    a: "rebuild_blocks (blocks (IRegion i blks)) env s = Inr (cr, nb, e1, s1)"
    and r: "(nr, s2) = (if cr then IRegion_init nb s1 else (IRegion i blks, s1))"
    and b: "rebuild_regions rest e1 s2 = Inr (cr', rest', env', s')"
    and "rs' = nr # rest'" "c = (cr \<or> cr')"
    by (rule rebuild_regions_Cons_inv)
  from a have a': "rebuild_blocks blks env s = Inr (cr, nb, e1, s1)" by simp
  from r have "next_id s1 \<le> next_id s2" by (cases cr) (auto simp: IRegion_init_def)
  with "6.IH"(1) [OF a'] "6.IH"(2) [OF a' refl refl refl r b] show ?case by (meson order_trans)
next
  case (7 env s)
  then show ?case by simp
next
  case (8 i as os rest env s)
  let ?b = "IBlock i as os"
  from "8.prems" obtain nb e1 s1 cr rest' where
    fg: "if block_substitution_required env ?b then from_iblock (ops ?b) ?b env s = Inr (nb, e1, s1)
         else nb = ?b \<and> e1 = env \<and> s1 = s"
    and b: "rebuild_blocks rest e1 s1 = Inr (cr, rest', env', s')"
    and "bs' = nb # rest'" "c = (block_substitution_required env ?b \<or> cr)"
    by (rule rebuild_blocks_Cons_inv)
  have a: "(if block_substitution_required env ?b
            then (case from_iblock os ?b env s of
                    Inl e \<Rightarrow> Inl e
                  | Inr (new_block, env1, s1) \<Rightarrow> Inr (True, new_block, env1, s1))
            else Inr (False, ?b, env, s))
           = Inr (block_substitution_required env ?b, nb, e1, s1)"
    using fg by (cases "block_substitution_required env ?b") auto
  have "dom env \<subseteq> dom e1 \<and> next_id s \<le> next_id s1"
  proof (cases "block_substitution_required env ?b")
    case True
    with fg have "from_iblock os ?b env s = Inr (nb, e1, s1)" by simp
    from "8.IH"(1) [OF True this] show ?thesis .
  next
    case False
    with fg show ?thesis by simp
  qed
  with "8.IH"(2) [OF a refl refl refl b] show ?case by (meson order_trans)
qed

lemma subst_necessary_mono:
  "dom e \<subseteq> dom e' \<Longrightarrow> subst_necessary e x \<Longrightarrow> subst_necessary e' x"
proof -
  assume sub: "dom e \<subseteq> dom e'" and "subst_necessary e x"
  then obtain v where v: "v \<in> set (operands x)" "e (key_of v) \<noteq> None"
    by (auto simp: subst_necessary_def list_ex_iff)
  then have "key_of v \<in> dom e" by (simp add: domIff)
  with sub have "key_of v \<in> dom e'" by blast
  then have "e' (key_of v) \<noteq> None" by (simp add: domIff)
  with v(1) show ?thesis by (auto simp: subst_necessary_def list_ex_iff)
qed


lemma block_substitution_required_mono:
  "dom e \<subseteq> dom e' \<Longrightarrow> block_substitution_required e b \<Longrightarrow> block_substitution_required e' b"
  by (auto simp: block_substitution_required_def list_ex_iff dest: subst_necessary_mono)


text \<open>
  Blocks and regions that hold no operand with an entry in the final \<^verbatim>\<open>env\<close> are handed
  on as they are.
\<close>

lemma rebuild_blocks_shares:
  "rebuild_blocks bs env s = Inr (c, bs', env', s') \<Longrightarrow>
     length bs' = length bs
     \<and> (\<forall>j < length bs. \<not> block_substitution_required env' (bs ! j) \<longrightarrow> bs' ! j = bs ! j)"
proof (induction bs arbitrary: c bs' env s)
  case Nil
  then show ?case by simp
next
  case (Cons b bs)
  from Cons.prems obtain nb e1 s1 cr rest' where
    fg: "if block_substitution_required env b then from_iblock (ops b) b env s = Inr (nb, e1, s1)
         else nb = b \<and> e1 = env \<and> s1 = s"
    and r: "rebuild_blocks bs e1 s1 = Inr (cr, rest', env', s')"
    and bs': "bs' = nb # rest'"
    and "c = (block_substitution_required env b \<or> cr)"
    by (rule rebuild_blocks_Cons_inv)
  have d1: "dom env \<subseteq> dom e1"
    using fg rebuild_monotone(1) [of "ops b" b env s nb e1 s1]
    by (cases "block_substitution_required env b") auto
  from rebuild_monotone(5) [OF r] have d2: "dom e1 \<subseteq> dom env'" by simp
  have head: "nb = b" if "\<not> block_substitution_required env' b"
  proof -
    from d1 d2 have "dom env \<subseteq> dom env'" by (rule order_trans)
    with that have "\<not> block_substitution_required env b"
      by (auto dest: block_substitution_required_mono)
    with fg show ?thesis by simp
  qed
  from Cons.IH [OF r] head bs' show ?case
    by (auto simp: nth_Cons split: nat.splits)
qed

lemma rebuild_regions_shares:
  "rebuild_regions rs env s = Inr (c, rs', env', s') \<Longrightarrow>
     length rs' = length rs
     \<and> (\<forall>j < length rs. (\<forall>b \<in> set (blocks (rs ! j)). \<not> block_substitution_required env' b)
            \<longrightarrow> rs' ! j = rs ! j)"
proof (induction rs arbitrary: c rs' env s)
  case Nil
  then show ?case by simp
next
  case (Cons r rs)
  from Cons.prems obtain cr nb e1 s1 nr s2 cr' rest' where
    a: "rebuild_blocks (blocks r) env s = Inr (cr, nb, e1, s1)"
    and nr: "(nr, s2) = (if cr then IRegion_init nb s1 else (r, s1))"
    and b: "rebuild_regions rs e1 s2 = Inr (cr', rest', env', s')"
    and rs': "rs' = nr # rest'"
    and "c = (cr \<or> cr')"
    by (rule rebuild_regions_Cons_inv)
  have head: "nr = r" if "\<forall>b \<in> set (blocks r). \<not> block_substitution_required env' b"
  proof -
    from rebuild_monotone(5) [OF a] rebuild_monotone(4) [OF b]
    have "dom env \<subseteq> dom env'" by (meson order_trans)
    with that have "\<forall>b \<in> set (blocks r). \<not> block_substitution_required env b"
      by (auto dest: block_substitution_required_mono)
    with rebuild_blocks_flag [OF a] have "\<not> cr" by simp
    with nr show ?thesis by simp
  qed
  from Cons.IH [OF b] head rs' show ?case
    by (auto simp: nth_Cons split: nat.splits)
qed

subsection \<open>When the rebuild returns\<close>











subsection \<open>What the rebuild writes into \<^verbatim>\<open>env\<close>\<close>















subsection \<open>The rebuilt block, told from the final \<^verbatim>\<open>env\<close>\<close>

















end
